theory Spec2Isabelle
  imports Complex_Main
begin

section \<open>Strings and numbers of the host language\<close>

text \<open>
  A JavaScript string is a sequence of UTF-16 code units; \<^verbatim>\<open>charCodeAt\<close>,
  \<^verbatim>\<open>length\<close>, \<^verbatim>\<open>slice\<close> and a regular expression without the
  \<^verbatim>\<open>u\<close> flag all work on code units. A code unit is modelled as a natural number
  (every unit of a real string is below 65536; the theorems below hold for all naturals).
\<close>

type_synonym jsstring = "nat list"

text \<open>
  The characters that \<^verbatim>\<open>String.prototype.trim\<close> removes and that \<^verbatim>\<open>\s\<close>
  matches: the white space and line terminator code units of ECMAScript.
\<close>

definition isWhiteSpace :: "nat \<Rightarrow> bool" where
  "isWhiteSpace c \<longleftrightarrow>
     c = 0x09 \<or> c = 0x0A \<or> c = 0x0B \<or> c = 0x0C \<or> c = 0x0D \<or> c = 0x20 \<or> c = 0xA0 \<or>
     c = 0x1680 \<or> (0x2000 \<le> c \<and> c \<le> 0x200A) \<or> c = 0x2028 \<or> c = 0x2029 \<or>
     c = 0x202F \<or> c = 0x205F \<or> c = 0x3000 \<or> c = 0xFEFF"

text \<open>\<^verbatim>\<open>s.replace(/^\s+/, '')\<close>, \<^verbatim>\<open>s.replace(/\s+$/, '')\<close> and \<^verbatim>\<open>s.trim()\<close>.\<close>

definition trimStart :: "jsstring \<Rightarrow> jsstring" where
  "trimStart s = dropWhile isWhiteSpace s"

definition trimEnd :: "jsstring \<Rightarrow> jsstring" where
  "trimEnd s = rev (dropWhile isWhiteSpace (rev s))"

definition trim :: "jsstring \<Rightarrow> jsstring" where
  "trim s = trimEnd (trimStart s)"

text \<open>
  \<^verbatim>\<open>text.split(sep)\<close> for a separator that matches exactly one code unit (the string
  \<^verbatim>\<open>'\n'\<close>, or a character class): the pieces between the matching units, so that a
  text with \<open>k\<close> matching units gives \<open>k + 1\<close> pieces and the empty text gives one
  empty piece. \<open>cur\<close> is the piece being read.
\<close>

fun splitAcc :: "(nat \<Rightarrow> bool) \<Rightarrow> jsstring \<Rightarrow> jsstring \<Rightarrow> jsstring list" where
  "splitAcc p cur [] = [cur]"
| "splitAcc p cur (c # cs) =
     (if p c then cur # splitAcc p [] cs else splitAcc p (cur @ [c]) cs)"

definition split :: "(nat \<Rightarrow> bool) \<Rightarrow> jsstring \<Rightarrow> jsstring list" where
  "split p text = splitAcc p [] text"

text \<open>\<^verbatim>\<open>pieces.join(sep)\<close>.\<close>

fun join :: "jsstring \<Rightarrow> jsstring list \<Rightarrow> jsstring" where
  "join sep [] = []"
| "join sep [x] = x"
| "join sep (x # y # ys) = x @ sep @ join sep (y # ys)"

definition LF :: nat where
  "LF = 0x0A"

text \<open>
  Numbers are IEEE doubles in the source. Widths, font sizes and thresholds are modelled as
  exact rationals (rounding is not modelled). A quotient is the one place where the source
  can leave the finite numbers, and HOL's \<open>x / 0 = 0\<close> is not what JavaScript computes,
  so the quotient of two finite numbers is a value of its own type: \<open>0 / 0\<close> is NaN, and
  every comparison with NaN is false.
\<close>

datatype jsnum = Finite rat | PosInfinity | NegInfinity | NaN

definition jsDiv :: "rat \<Rightarrow> rat \<Rightarrow> jsnum" where
  "jsDiv a b =
     (if b \<noteq> 0 then Finite (a / b)
      else if a = 0 then NaN
      else if 0 < a then PosInfinity else NegInfinity)"

fun jsLess :: "jsnum \<Rightarrow> rat \<Rightarrow> bool" where
  "jsLess (Finite a) b = (a < b)"
| "jsLess PosInfinity b = False"
| "jsLess NegInfinity b = True"
| "jsLess NaN b = False"

fun jsGreaterEq :: "jsnum \<Rightarrow> rat \<Rightarrow> bool" where
  "jsGreaterEq (Finite a) b = (b \<le> a)"
| "jsGreaterEq PosInfinity b = True"
| "jsGreaterEq NegInfinity b = False"
| "jsGreaterEq NaN b = False"

section \<open>Configuration and errors\<close>

datatype DetectionType = AutoWidth | EdgeBreaking | SoftBreak

text \<open>
  \<^verbatim>\<open>ProcessingConfig\<close> of \<^verbatim>\<open>code.ts\<close>. \<open>fontWidthMultiplier\<close> is optional in
  the source. \<open>excludePatterns\<close> is read by no function of \<^verbatim>\<open>code.ts\<close>.
\<close>

record ProcessingConfig =
  minCharacters :: int
  lineBreakThreshold :: rat
  softBreakChars :: "jsstring list"
  excludePatterns :: "jsstring list"
  enabledDetections :: "DetectionType list"
  fontWidthMultiplier :: "rat option"

text \<open>
  What a call can end with instead of a value: the \<^verbatim>\<open>SyntaxError\<close> that
  \<^verbatim>\<open>new RegExp\<close> throws, and \<open>OutsideModel\<close> for a pattern whose meaning this
  development does not define (no theorem speaks about a run that ends there).
\<close>

datatype failure = SyntaxError | OutsideModel

section \<open>Width estimation (code.ts, TextProcessor.estimateTextWidth)\<close>

definition isFullWidthCharacter :: "nat \<Rightarrow> bool" where
  "isFullWidthCharacter charCode \<longleftrightarrow>
     (0x3040 \<le> charCode \<and> charCode \<le> 0x309F) \<or>
     (0x30A0 \<le> charCode \<and> charCode \<le> 0x30FF) \<or>
     (0x4E00 \<le> charCode \<and> charCode \<le> 0x9FAF) \<or>
     (0x3400 \<le> charCode \<and> charCode \<le> 0x4DBF) \<or>
     (0xFF00 \<le> charCode \<and> charCode \<le> 0xFFEF) \<or>
     (0x3000 \<le> charCode \<and> charCode \<le> 0x303F)"

definition isHalfWidthCharacter :: "nat \<Rightarrow> bool" where
  "isHalfWidthCharacter charCode \<longleftrightarrow>
     (0x0020 \<le> charCode \<and> charCode \<le> 0x007E) \<or>
     (0xFF61 \<le> charCode \<and> charCode \<le> 0xFF9F)"

text \<open>\<^verbatim>\<open>this.config.fontWidthMultiplier || 1.0\<close>: a missing or zero multiplier is 1.\<close>

definition baseMultiplier :: "'a ProcessingConfig_scheme \<Rightarrow> rat" where
  "baseMultiplier cfg =
     (case fontWidthMultiplier cfg of
        None \<Rightarrow> 1
      | Some m \<Rightarrow> if m = 0 then 1 else m)"

definition charWidth :: "'a ProcessingConfig_scheme \<Rightarrow> rat \<Rightarrow> nat \<Rightarrow> rat" where
  "charWidth cfg fontSize charCode =
     (if isFullWidthCharacter charCode then fontSize * baseMultiplier cfg
      else if isHalfWidthCharacter charCode then fontSize * (baseMultiplier cfg * (1 / 2))
      else fontSize * (baseMultiplier cfg * (4 / 5)))"

definition estimateTextWidth :: "'a ProcessingConfig_scheme \<Rightarrow> jsstring \<Rightarrow> rat \<Rightarrow> rat" where
  "estimateTextWidth cfg text fontSize =
     foldl (\<lambda>totalWidth charCode. totalWidth + charWidth cfg fontSize charCode) 0 text"

section \<open>The break pattern (code.ts)\<close>

text \<open>
  \<^verbatim>\<open>new RegExp(`[${allBreakChars.map(escape).join('')}]`)\<close> with
  \<^verbatim>\<open>allBreakChars = ['\n', ...softBreakChars]\<close>. The escaping puts a backslash before
  each of \<^verbatim>\<open>. * + ? ^ $ { } ( ) | [ ] \\<close>, so inside the class every code unit of the
  joined strings is an atom that stands for itself; only \<^verbatim>\<open>-\<close> is left unescaped, and
  between two atoms it makes a range. A range whose bounds are out of order makes
  \<^verbatim>\<open>new RegExp\<close> throw. The class is kept as its list of ranges.
\<close>

definition HYPHEN :: nat where
  "HYPHEN = 0x2D"

fun classRanges :: "jsstring \<Rightarrow> failure + (nat \<times> nat) list" where
  "classRanges [] = Inr []"
| "classRanges [a] = Inr [(a, a)]"
| "classRanges [a, b] = Inr [(a, a), (b, b)]"
| "classRanges (a # d # b # rest) =
     (if d = HYPHEN then
        (if b < a then Inl SyntaxError
         else case classRanges rest of
                Inl e \<Rightarrow> Inl e
              | Inr rs \<Rightarrow> Inr ((a, b) # rs))
      else case classRanges (d # b # rest) of
             Inl e \<Rightarrow> Inl e
           | Inr rs \<Rightarrow> Inr ((a, a) # rs))"

definition breakPattern :: "'a ProcessingConfig_scheme \<Rightarrow> failure + (nat \<times> nat) list" where
  "breakPattern cfg = classRanges (concat ([LF] # softBreakChars cfg))"

definition classMatches :: "(nat \<times> nat) list \<Rightarrow> nat \<Rightarrow> bool" where
  "classMatches rs c \<longleftrightarrow> (\<exists>r \<in> set rs. fst r \<le> c \<and> c \<le> snd r)"


section \<open>Rejoining lines (code.ts, TextProcessor)\<close>

text \<open>\<^verbatim>\<open>isJapanese(char)\<close> on the first code unit of a one-unit string.\<close>

definition isJapanese :: "nat \<Rightarrow> bool" where
  "isJapanese code \<longleftrightarrow>
     (0x3040 \<le> code \<and> code \<le> 0x309F) \<or>
     (0x30A0 \<le> code \<and> code \<le> 0x30FF) \<or>
     (0x4E00 \<le> code \<and> code \<le> 0x9FAF) \<or>
     (0x3400 \<le> code \<and> code \<le> 0x4DBF)"

definition SPACE :: nat where
  "SPACE = 0x20"

text \<open>
  \<^verbatim>\<open>combineLines(line1, line2)\<close>: \<^verbatim>\<open>slice(-1)\<close> and \<^verbatim>\<open>slice(0, 1)\<close> are
  the last and the first code unit, read only when both trimmed parts are non-empty.
\<close>

definition combineLines :: "jsstring \<Rightarrow> jsstring \<Rightarrow> jsstring" where
  "combineLines line1 line2 =
     (let trimmed1 = trimEnd line1; trimmed2 = trimStart line2 in
      if trimmed1 = [] \<or> trimmed2 = [] then trimmed1 @ trimmed2
      else if isJapanese (last trimmed1) \<and> isJapanese (hd trimmed2) then trimmed1 @ trimmed2
      else trimmed1 @ [SPACE] @ trimmed2)"

text \<open>
  \<^verbatim>\<open>/[\<dots>]$/.test(currentTrimmed)\<close> with the four marks U+3002, U+FF0E, U+FF01 and
  U+FF1F: without the \<^verbatim>\<open>m\<close> flag \<^verbatim>\<open>$\<close> is the end of the string, so the test
  reads the last code unit.
\<close>

definition endsWithSentenceMark :: "jsstring \<Rightarrow> bool" where
  "endsWithSentenceMark s \<longleftrightarrow>
     s \<noteq> [] \<and> (last s = 0x3002 \<or> last s = 0xFF0E \<or> last s = 0xFF01 \<or> last s = 0xFF1F)"

text \<open>
  The first loop of \<^verbatim>\<open>removeLineBreaksJapanesePriority\<close>: one flag per line, the last
  line's flag always \<open>True\<close>.
\<close>

fun shouldBreakAfter ::
  "'a ProcessingConfig_scheme \<Rightarrow> rat \<Rightarrow> rat \<Rightarrow> jsstring list \<Rightarrow> bool list" where
  "shouldBreakAfter cfg containerWidth fontSize [] = []"
| "shouldBreakAfter cfg containerWidth fontSize [currentLine] = [True]"
| "shouldBreakAfter cfg containerWidth fontSize (currentLine # nextLine # rest) =
     (if endsWithSentenceMark (trim currentLine) then True
      else if jsLess (jsDiv (estimateTextWidth cfg (trim currentLine) fontSize) containerWidth)
                (lineBreakThreshold cfg)
      then True else False)
     # shouldBreakAfter cfg containerWidth fontSize (nextLine # rest)"

text \<open>
  The second loop: \<open>currentCombined\<close> collects lines until a flag is set, then is pushed
  to the result. The loop's \<^verbatim>\<open>combine\<close> is a parameter, since the revisions differ in it.
\<close>

fun joinLines ::
  "(jsstring \<Rightarrow> jsstring \<Rightarrow> jsstring) \<Rightarrow> jsstring \<Rightarrow> (jsstring \<times> bool) list \<Rightarrow> jsstring list" where
  "joinLines combine currentCombined [] = []"
| "joinLines combine currentCombined ((line, breakAfter) # rest) =
     (let combined = (if currentCombined = [] then line else combine currentCombined line) in
      if breakAfter then combined # joinLines combine [] rest
      else joinLines combine combined rest)"

definition removeLineBreaksJapanesePriority ::
  "'a ProcessingConfig_scheme \<Rightarrow> jsstring \<Rightarrow> rat \<Rightarrow> rat \<Rightarrow> bool \<Rightarrow> failure + jsstring" where
  "removeLineBreaksJapanesePriority cfg text containerWidth fontSize ignoreMinCharacters =
     (if \<not> ignoreMinCharacters \<and> int (length text) < minCharacters cfg then Inr text
      else case breakPattern cfg of
             Inl e \<Rightarrow> Inl e
           | Inr cls \<Rightarrow>
               (let lines = split (classMatches cls) text in
                Inr (join [LF]
                      (joinLines combineLines []
                         (zip lines (shouldBreakAfter cfg containerWidth fontSize lines))))))"


text \<open>\<^verbatim>\<open>DEFAULT_CONFIG\<close> of \<^verbatim>\<open>code.ts\<close>.\<close>

definition DEFAULT_CONFIG :: ProcessingConfig where
  "DEFAULT_CONFIG =
     \<lparr> minCharacters = 20,
       lineBreakThreshold = 9 / 10,
       softBreakChars = [[0x2028]],
       excludePatterns = [],
       enabledDetections = [AutoWidth, EdgeBreaking, SoftBreak],
       fontWidthMultiplier = Some 1 \<rparr>"

text \<open>The Hiragana block, the first range of \<open>isFullWidthCharacter\<close> and \<open>isJapanese\<close>.\<close>

definition isHiragana :: "nat \<Rightarrow> bool" where
  "isHiragana c \<longleftrightarrow> 0x3040 \<le> c \<and> c \<le> 0x309F"

text \<open>
  The sentence-final marks as the specification lists them: the four full-width marks and
  the ASCII full stop, exclamation mark and question mark. The source's test is
  \<open>endsWithSentenceMark\<close>.
\<close>

definition endsWithSpecSentenceMark :: "jsstring \<Rightarrow> bool" where
  "endsWithSpecSentenceMark s \<longleftrightarrow>
     s \<noteq> [] \<and> (last s = 0x3002 \<or> last s = 0xFF0E \<or> last s = 0xFF01 \<or> last s = 0xFF1F \<or>
               last s = 0x2E \<or> last s = 0x21 \<or> last s = 0x3F)"

text \<open>The lines of a text that its hard breaks delimit: \<^verbatim>\<open>text.split('\n')\<close>.\<close>

definition isLF :: "nat \<Rightarrow> bool" where
  "isLF c \<longleftrightarrow> c = LF"

definition hardBreakLines :: "jsstring \<Rightarrow> jsstring list" where
  "hardBreakLines text = split isLF text"

section \<open>Rejoining lines in the later revision (part 000 of the unnamed sources)\<close>

text \<open>
  \<^verbatim>\<open>TextWidthCalculator\<close> of \<^verbatim>\<open>part_000\<close>. Its two caches store what the
  functions below compute for the same text and font size under one configuration, so
  they are not part of the model. The revision's configuration has the fields
  \<open>minCharacters\<close>, \<open>lineBreakThreshold\<close>, \<open>softBreakChars\<close> and
  \<open>fontWidthMultiplier\<close> of the record above.
\<close>

definition isPunctuation :: "nat \<Rightarrow> bool" where
  "isPunctuation charCode \<longleftrightarrow>
     charCode \<in> {0xFF01, 0xFF1F, 0x3002, 0x3001, 0xFF0C, 0xFF0E, 0xFF1A, 0xFF1B,
                  0x300C, 0x300D, 0x300E, 0x300F, 0xFF08, 0xFF09, 0x3010, 0x3011,
                  0x3008, 0x3009, 0x300A, 0x300B, 0x3014, 0x3015, 0xFF3B, 0xFF3D,
                  0xFF5B, 0xFF5D}"

definition CHARACTER_WIDTH_MAP :: "(nat \<times> rat) list" where
  "CHARACTER_WIDTH_MAP =
     [(0x20AC, 6 / 10), (0xA3, 5 / 10), (0xA5, 6 / 10), (0xA9, 7 / 10), (0xAE, 7 / 10),
      (0x2122, 7 / 10), (0xB0, 35 / 100), (0xB1, 5 / 10), (0xD7, 5 / 10), (0xF7, 5 / 10),
      (0x2260, 5 / 10), (0x2264, 5 / 10), (0x2265, 5 / 10), (0x2026, 7 / 10),
      (0x2013, 4 / 10), (0x2014, 7 / 10), (0x2018, 2 / 10), (0x2019, 2 / 10),
      (0x201C, 35 / 100), (0x201D, 35 / 100), (0x2022, 3 / 10), (0x2030, 9 / 10),
      (0xA7, 5 / 10), (0xB6, 5 / 10), (0x2020, 4 / 10), (0x2021, 4 / 10)]"

definition estimateLatinCharacterWidth :: "nat \<Rightarrow> rat" where
  "estimateLatinCharacterWidth charCode =
     (if 48 \<le> charCode \<and> charCode \<le> 57 then (if charCode = 49 then 32 / 100 else 53 / 100)
      else if 65 \<le> charCode \<and> charCode \<le> 90 then
        (if charCode = 77 \<or> charCode = 87 then 85 / 100
         else if charCode = 73 then 32 / 100
         else 68 / 100)
      else if 97 \<le> charCode \<and> charCode \<le> 122 then
        (if charCode = 105 \<or> charCode = 108 then 27 / 100
         else if charCode = 116 \<or> charCode = 102 then 37 / 100
         else if charCode = 109 \<or> charCode = 119 then 75 / 100
         else 53 / 100)
      else if charCode = 32 then 27 / 100
      else if charCode = 33 then 25 / 100
      else if charCode = 46 then 27 / 100
      else if charCode = 44 then 27 / 100
      else if charCode = 58 then 27 / 100
      else if charCode = 59 then 27 / 100
      else if charCode = 45 then 37 / 100
      else if charCode = 40 \<or> charCode = 41 then 3 / 10
      else if charCode = 64 then 8 / 10
      else if charCode = 37 then 75 / 100
      else if charCode = 38 then 65 / 100
      else 48 / 100)"

definition estimateUnknownCharacterWidth :: "nat \<Rightarrow> rat" where
  "estimateUnknownCharacterWidth charCode =
     (if charCode \<le> 0x007E then
        (if 0x0020 \<le> charCode then estimateLatinCharacterWidth charCode else 53 / 100)
      else if charCode \<le> 0x00FF then 58 / 100
      else if charCode \<le> 0x017F then 58 / 100
      else if 0x2000 \<le> charCode \<and> charCode \<le> 0x206F then 43 / 100
      else if 0x2000 \<le> charCode \<and> 0x20A0 \<le> charCode \<and> charCode \<le> 0x20CF then 63 / 100
      else if 0x2000 \<le> charCode \<and> 0x2100 \<le> charCode \<and> charCode \<le> 0x214F then 73 / 100
      else 53 / 100)"

definition getFallbackCharacterWidth :: "'a ProcessingConfig_scheme \<Rightarrow> nat \<Rightarrow> rat \<Rightarrow> rat" where
  "getFallbackCharacterWidth cfg charCode fontSize =
     (if isFullWidthCharacter charCode then
        fontSize * baseMultiplier cfg * (if isPunctuation charCode then 95 / 100 else 1)
      else case map_of CHARACTER_WIDTH_MAP charCode of
             Some specialWidth \<Rightarrow> fontSize * baseMultiplier cfg * specialWidth
           | None \<Rightarrow> fontSize * baseMultiplier cfg * estimateUnknownCharacterWidth charCode)"

definition estimateTextWidth_part0 :: "'a ProcessingConfig_scheme \<Rightarrow> jsstring \<Rightarrow> rat \<Rightarrow> rat" where
  "estimateTextWidth_part0 cfg text fontSize =
     foldl (\<lambda>totalWidth charCode. totalWidth + getFallbackCharacterWidth cfg charCode fontSize)
       0 text"

text \<open>\<^verbatim>\<open>isAlphanumeric\<close>: \<^verbatim>\<open>/^[a-zA-Z0-9]$/\<close> on a string of one code unit.\<close>

definition isAlphanumeric :: "nat \<Rightarrow> bool" where
  "isAlphanumeric c \<longleftrightarrow>
     (0x61 \<le> c \<and> c \<le> 0x7A) \<or> (0x41 \<le> c \<and> c \<le> 0x5A) \<or> (0x30 \<le> c \<and> c \<le> 0x39)"

definition combineLines_part0 :: "jsstring \<Rightarrow> jsstring \<Rightarrow> jsstring" where
  "combineLines_part0 line1 line2 =
     (let trimmed1 = trimEnd line1; trimmed2 = trimStart line2 in
      if trimmed1 = [] \<or> trimmed2 = [] then trimmed1 @ trimmed2
      else if isAlphanumeric (last trimmed1) \<and> isAlphanumeric (hd trimmed2)
        then trimmed1 @ [SPACE] @ trimmed2
      else trimmed1 @ trimmed2)"

text \<open>
  The first loop of this revision tests \<^verbatim>\<open>widthRatio >= lineBreakThreshold\<close> and
  clears the flag when the test holds.
\<close>

fun shouldBreakAfter_part0 ::
  "'a ProcessingConfig_scheme \<Rightarrow> rat \<Rightarrow> rat \<Rightarrow> jsstring list \<Rightarrow> bool list" where
  "shouldBreakAfter_part0 cfg containerWidth fontSize [] = []"
| "shouldBreakAfter_part0 cfg containerWidth fontSize [currentLine] = [True]"
| "shouldBreakAfter_part0 cfg containerWidth fontSize (currentLine # nextLine # rest) =
     (if endsWithSentenceMark (trim currentLine) then True
      else if jsGreaterEq
                (jsDiv (estimateTextWidth_part0 cfg (trim currentLine) fontSize) containerWidth)
                (lineBreakThreshold cfg)
      then False else True)
     # shouldBreakAfter_part0 cfg containerWidth fontSize (nextLine # rest)"

text \<open>The two loops on the lines of a text, and the whole function.\<close>

definition rejoinLines_part0 ::
  "'a ProcessingConfig_scheme \<Rightarrow> rat \<Rightarrow> rat \<Rightarrow> jsstring list \<Rightarrow> jsstring list" where
  "rejoinLines_part0 cfg containerWidth fontSize lines =
     joinLines combineLines_part0 []
       (zip lines (shouldBreakAfter_part0 cfg containerWidth fontSize lines))"

definition removeLineBreaksJapanesePriority_part0 ::
  "'a ProcessingConfig_scheme \<Rightarrow> jsstring \<Rightarrow> rat \<Rightarrow> rat \<Rightarrow> bool \<Rightarrow> jsstring" where
  "removeLineBreaksJapanesePriority_part0 cfg text containerWidth fontSize ignoreMinCharacters =
     (if \<not> ignoreMinCharacters \<and> int (length text) < minCharacters cfg then text
      else join [LF] (rejoinLines_part0 cfg containerWidth fontSize (hardBreakLines text)))"

section \<open>Word-wrap simulation (code.ts, TextAnalyzer.simulateWordWrap)\<close>

text \<open>
  \<^verbatim>\<open>paragraph.split(/(\s+)/)\<close>: the runs of white space and the runs between them,
  in order, starting and ending with a run that is not white space (an empty one when the
  paragraph starts or ends with white space). \<open>inSpace\<close> tells which kind of run
  \<open>cur\<close> is.
\<close>

fun splitWhitespaceAcc :: "bool \<Rightarrow> jsstring \<Rightarrow> jsstring \<Rightarrow> jsstring list" where
  "splitWhitespaceAcc inSpace cur [] = (if inSpace then [cur, []] else [cur])"
| "splitWhitespaceAcc inSpace cur (c # cs) =
     (if inSpace = isWhiteSpace c then splitWhitespaceAcc inSpace (cur @ [c]) cs
      else cur # splitWhitespaceAcc (isWhiteSpace c) [c] cs)"

definition splitWhitespace :: "jsstring \<Rightarrow> jsstring list" where
  "splitWhitespace paragraph = splitWhitespaceAcc False [] paragraph"

text \<open>The loop over the tokens of one paragraph, with the line being filled.\<close>

fun wrapWords ::
  "'a ProcessingConfig_scheme \<Rightarrow> rat \<Rightarrow> rat \<Rightarrow> jsstring \<Rightarrow> jsstring list \<Rightarrow> jsstring list" where
  "wrapWords cfg containerWidth fontSize currentLine [] =
     (if currentLine \<noteq> [] then [currentLine] else [])"
| "wrapWords cfg containerWidth fontSize currentLine (word # rest) =
     (let testLine = currentLine @ word;
          estimatedWidth = estimateTextWidth cfg testLine fontSize in
      if estimatedWidth \<le> containerWidth \<or> currentLine = []
      then wrapWords cfg containerWidth fontSize testLine rest
      else currentLine # wrapWords cfg containerWidth fontSize word rest)"

definition wrapParagraph ::
  "'a ProcessingConfig_scheme \<Rightarrow> rat \<Rightarrow> rat \<Rightarrow> jsstring \<Rightarrow> jsstring list" where
  "wrapParagraph cfg containerWidth fontSize paragraph =
     (if trim paragraph = [] then [[]]
      else wrapWords cfg containerWidth fontSize [] (splitWhitespace paragraph))"

definition simulateWordWrap ::
  "'a ProcessingConfig_scheme \<Rightarrow> jsstring \<Rightarrow> rat \<Rightarrow> rat \<Rightarrow> failure + jsstring list" where
  "simulateWordWrap cfg text containerWidth fontSize =
     (case breakPattern cfg of
        Inl e \<Rightarrow> Inl e
      | Inr cls \<Rightarrow>
          Inr (concat (map (wrapParagraph cfg containerWidth fontSize)
                         (split (classMatches cls) text))))"

section \<open>Auto-width detection (code.ts, TextAnalyzer.detectAutoWidthIssues)\<close>

text \<open>
  The fields of the host's text node that the modelled functions read, as a snapshot:
  reading a field does not fail. \<open>fontSize\<close> is \<open>None\<close> for a node of mixed sizes.
\<close>

datatype TextAutoResize = NONE | HEIGHT | WIDTH_AND_HEIGHT | TRUNCATE

record DetectedIssue =
  type :: DetectionType
  confidence :: rat
  description :: string
  lineNumbers :: "nat list"

record TextNode =
  characters :: jsstring
  width :: rat
  fontSize :: "rat option"
  textAutoResize :: TextAutoResize

text \<open>
  \<^verbatim>\<open>getLineNumbers\<close> builds the break pattern; \<^verbatim>\<open>detectAutoWidthIssues\<close> calls
  it inside its \<^verbatim>\<open>try\<close>, so a pattern that does not compile leaves the list of issues
  empty.
\<close>

definition getLineNumbers :: "'a ProcessingConfig_scheme \<Rightarrow> jsstring \<Rightarrow> failure + nat list" where
  "getLineNumbers cfg text =
     (case breakPattern cfg of
        Inl e \<Rightarrow> Inl e
      | Inr cls \<Rightarrow>
          (let lines = split (classMatches cls) text in
           Inr (filter (\<lambda>lineNum. lineNum < length lines)
                  (map (\<lambda>index. index + 1) [0..<length lines]))))"

definition detectAutoWidthIssues ::
  "'a ProcessingConfig_scheme \<Rightarrow> 'b TextNode_scheme \<Rightarrow> DetectedIssue list" where
  "detectAutoWidthIssues cfg node =
     (let currentAutoResize = textAutoResize node; currentText = characters node in
      if (currentAutoResize = NONE \<or> currentAutoResize = HEIGHT \<or>
          currentAutoResize = WIDTH_AND_HEIGHT) \<and> LF \<in> set currentText
      then (case getLineNumbers cfg currentText of
              Inl e \<Rightarrow> []
            | Inr numbers \<Rightarrow>
                [\<lparr> type = AutoWidth, confidence = 9 / 10,
                   description = ''Text with line breaks can be processed'',
                   lineNumbers = numbers \<rparr>])
      else [])"

text \<open>
  The same detector in the modular revision, \<^verbatim>\<open>src/textAnalyzer.ts\<close>: it tests the
  mode \<^verbatim>\<open>WIDTH_AND_HEIGHT\<close> only, and its \<^verbatim>\<open>getLineNumbers\<close> splits at hard
  breaks, with no pattern to compile.
\<close>

definition getLineNumbers_modular :: "jsstring \<Rightarrow> nat list" where
  "getLineNumbers_modular text =
     (let lines = hardBreakLines text in
      filter (\<lambda>lineNum. lineNum < length lines) (map (\<lambda>index. index + 1) [0..<length lines]))"

definition detectAutoWidthIssues_modular :: "'b TextNode_scheme \<Rightarrow> DetectedIssue list" where
  "detectAutoWidthIssues_modular node =
     (let currentAutoResize = textAutoResize node; currentText = characters node in
      if currentAutoResize = WIDTH_AND_HEIGHT \<and> LF \<in> set currentText
      then [\<lparr> type = AutoWidth, confidence = 9 / 10,
              description = ''Auto-width text with line breaks can be converted to auto-height'',
              lineNumbers = getLineNumbers_modular currentText \<rparr>]
      else [])"

text \<open>A fixed-size node with the text \<^verbatim>\<open>"a\nb"\<close>.\<close>

definition fixedNode :: TextNode where
  "fixedNode = \<lparr> characters = [0x61, 0x0A, 0x62], width = 100, fontSize = Some 16,
                 textAutoResize = NONE \<rparr>"


section \<open>Soft-break conversion (code.ts, TextProcessor.convertSoftBreaksToHard)\<close>

text \<open>
  \<^verbatim>\<open>result.replace(new RegExp(softBreakChar, 'g'), '\n')\<close> takes the configured string
  as the source of a regular expression, without the escaping that
  \<^verbatim>\<open>countSoftBreaks\<close> and the break pattern apply. The host's regular expressions are
  given a meaning here for the sources whose meaning is direct: a source with none of the
  syntax characters \<^verbatim>\<open>\ ^ $ . * + ? ( ) [ ] { } |\<close> matches itself (the empty source
  matches the empty string at every position), \<^verbatim>\<open>^\<close> matches at the start of the
  text, \<^verbatim>\<open>$\<close> at its end, and \<^verbatim>\<open>.\<close> matches every unit but a line terminator.
  Any other source is outside the model.
\<close>

definition regexSyntaxCharacter :: "nat \<Rightarrow> bool" where
  "regexSyntaxCharacter c \<longleftrightarrow>
     c = 0x5C \<or> c = 0x5E \<or> c = 0x24 \<or> c = 0x2E \<or> c = 0x2A \<or> c = 0x2B \<or> c = 0x3F \<or>
     c = 0x28 \<or> c = 0x29 \<or> c = 0x5B \<or> c = 0x5D \<or> c = 0x7B \<or> c = 0x7D \<or> c = 0x7C"

definition isLineTerminator :: "nat \<Rightarrow> bool" where
  "isLineTerminator c \<longleftrightarrow> c = 0x0A \<or> c = 0x0D \<or> c = 0x2028 \<or> c = 0x2029"

text \<open>
  Replacing every match of a non-empty literal pattern, leftmost first and without
  overlap, by a hard break.
\<close>

function replaceLiteral :: "jsstring \<Rightarrow> jsstring \<Rightarrow> jsstring" where
  "replaceLiteral pattern [] = []"
| "replaceLiteral pattern (c # cs) =
     (if pattern \<noteq> [] \<and> take (length pattern) (c # cs) = pattern
      then LF # replaceLiteral pattern (drop (length pattern) (c # cs))
      else c # replaceLiteral pattern cs)"
  by pat_completeness auto
termination
  by (relation "measure (\<lambda>(pattern, s). length s)") auto

definition replaceAllMatches :: "jsstring \<Rightarrow> jsstring \<Rightarrow> failure + jsstring" where
  "replaceAllMatches source s =
     (if list_all (\<lambda>c. \<not> regexSyntaxCharacter c) source then
        (if source = [] then Inr (LF # concat (map (\<lambda>c. [c, LF]) s))
         else Inr (replaceLiteral source s))
      else if source = [0x5E] then Inr (LF # s)
      else if source = [0x24] then Inr (s @ [LF])
      else if source = [0x2E] then Inr (map (\<lambda>c. if isLineTerminator c then c else LF) s)
      else Inl OutsideModel)"

text \<open>The loop over the configured soft breaks.\<close>

fun convertLoop :: "jsstring list \<Rightarrow> jsstring \<Rightarrow> failure + jsstring" where
  "convertLoop [] result = Inr result"
| "convertLoop (softBreakChar # rest) result =
     (case replaceAllMatches softBreakChar result of
        Inl e \<Rightarrow> Inl e
      | Inr replaced \<Rightarrow> convertLoop rest replaced)"

definition convertSoftBreaksToHard :: "'a ProcessingConfig_scheme \<Rightarrow> jsstring \<Rightarrow> failure + jsstring" where
  "convertSoftBreaksToHard cfg s = convertLoop (softBreakChars cfg) s"

text \<open>A configuration whose only soft break is the character \<^verbatim>\<open>^\<close>.\<close>

definition caretConfig :: ProcessingConfig where
  "caretConfig = DEFAULT_CONFIG \<lparr> softBreakChars := [[0x5E]] \<rparr>"


text \<open>What the loop does to one code unit when every soft break is a single unit.\<close>

fun softBreakSubst :: "nat list \<Rightarrow> nat \<Rightarrow> nat" where
  "softBreakSubst [] c = c"
| "softBreakSubst (k # ks) c = softBreakSubst ks (if c = k then LF else c)"


section \<open>Change synthesis (code.ts, TextProcessor.generateChanges)\<close>

text \<open>
  \<^verbatim>\<open>ProcessingChanges\<close>: both fields are optional. \<^verbatim>\<open>generateChanges\<close> returns
  the record; an exception of the rejoin or of the conversion leaves the function.
\<close>

record ProcessingChanges =
  newText :: "jsstring option"
  newAutoResize :: "TextAutoResize option"

text \<open>\<^verbatim>\<open>typeof node.fontSize === 'number' ? node.fontSize : 16\<close>.\<close>

definition getFontSize :: "'b TextNode_scheme \<Rightarrow> rat" where
  "getFontSize node = (case fontSize node of Some n \<Rightarrow> n | None \<Rightarrow> 16)"

text \<open>
  The loop over the sorted issues, with the changes and the processed text so far.
\<close>

fun applyIssues ::
  "'a ProcessingConfig_scheme \<Rightarrow> 'b TextNode_scheme \<Rightarrow> DetectedIssue list \<Rightarrow>
   ProcessingChanges \<times> jsstring \<Rightarrow> failure + (ProcessingChanges \<times> jsstring)" where
  "applyIssues cfg node [] (changes, processedText) = Inr (changes, processedText)"
| "applyIssues cfg node (issue # rest) (changes, processedText) =
     (case type issue of
        AutoWidth \<Rightarrow>
          (case removeLineBreaksJapanesePriority cfg processedText (width node)
                  (getFontSize node) False of
             Inl e \<Rightarrow> Inl e
           | Inr rejoined \<Rightarrow>
               applyIssues cfg node rest (changes\<lparr>newAutoResize := Some HEIGHT\<rparr>, rejoined))
      | EdgeBreaking \<Rightarrow>
          (case removeLineBreaksJapanesePriority cfg processedText (width node)
                  (getFontSize node) False of
             Inl e \<Rightarrow> Inl e
           | Inr rejoined \<Rightarrow> applyIssues cfg node rest (changes, rejoined))
      | SoftBreak \<Rightarrow>
          (case convertSoftBreaksToHard cfg processedText of
             Inl e \<Rightarrow> Inl e
           | Inr converted \<Rightarrow> applyIssues cfg node rest (changes, converted)))"

text \<open>
  \<^verbatim>\<open>issues.sort((a, b) => b.confidence - a.confidence)\<close> is a stable sort by
  descending confidence.
\<close>

definition generateChanges ::
  "'a ProcessingConfig_scheme \<Rightarrow> jsstring \<Rightarrow> DetectedIssue list \<Rightarrow> 'b TextNode_scheme \<Rightarrow>
   failure + ProcessingChanges" where
  "generateChanges cfg originalText issues node =
     (case (if textAutoResize node = WIDTH_AND_HEIGHT then
              (case removeLineBreaksJapanesePriority cfg originalText (width node)
                      (getFontSize node) False of
                 Inl e \<Rightarrow> Inl e
               | Inr rejoined \<Rightarrow>
                   Inr (\<lparr>newText = None, newAutoResize = Some HEIGHT\<rparr>, rejoined))
            else applyIssues cfg node (sort_key (\<lambda>issue. - confidence issue) issues)
                   (\<lparr>newText = None, newAutoResize = None\<rparr>, originalText)) of
        Inl e \<Rightarrow> Inl e
      | Inr (changes, processedText) \<Rightarrow>
          Inr (if processedText \<noteq> originalText
               then changes\<lparr>newText := Some processedText\<rparr> else changes))"

text \<open>
  An auto-height node with the text \<^verbatim>\<open>"a\nb"\<close>, and an auto-width node whose first
  line is 23 Hiragana characters.
\<close>

definition autoHeightNode :: TextNode where
  "autoHeightNode = \<lparr> characters = [0x61, 0x0A, 0x62], width = 100, fontSize = Some 16,
                      textAutoResize = HEIGHT \<rparr>"

definition autoWidthNode :: TextNode where
  "autoWidthNode = \<lparr> characters = replicate 23 0x3042 @ [0x0A, 0x3044], width = 400,
                     fontSize = Some 16, textAutoResize = WIDTH_AND_HEIGHT \<rparr>"


section \<open>Batch analysis (code.ts, BatchProcessor.analyzeNodes)\<close>

text \<open>
  \<^verbatim>\<open>analyzeTextNode\<close> reads the live node of the host, where a read can throw; its
  outcome for a node is a parameter here, \<open>Inl\<close> with the text of what it throws (the
  \<^verbatim>\<open>${error}\<close> of the handler). The handler of the inner \<^verbatim>\<open>try\<close> reads
  \<^verbatim>\<open>node.characters\<close> of the live node once more; that read is the parameter
  \<open>readCharacters\<close>, \<open>Inl\<close> with the text of what the host throws (for a node that has
  been removed from the document) and \<open>Inr\<close> with the content otherwise. An exception of
  that read is raised inside the handler, so it leaves the inner \<^verbatim>\<open>try\<close> and reaches the
  outer \<^verbatim>\<open>catch\<close>, which throws \<^verbatim>\<open>Batch analysis failed: ${error}\<close>: the functions
  below return \<open>Inl\<close> then, and the results collected so far are lost.
  The optional progress callback only reports the position and the name of the node after
  a successful analysis; it is taken to return normally and does not appear in the model.
  \<^verbatim>\<open>yieldToUI\<close> gives the host a turn after every item. The flag
  \<^verbatim>\<open>isCancelled\<close> can change only during such a turn, so what a check reads is a
  function of the number of items done so far.
\<close>

record TextAnalysisResult =
  node :: TextNode
  issues :: "DetectedIssue list"
  estimatedChanges :: jsstring
  originalText :: jsstring












section \<open>Properties\<close>

lemma splitAcc_no_match:
  "\<forall>c \<in> set s. \<not> p c \<Longrightarrow> splitAcc p cur s = [cur @ s]"
  by (induction s arbitrary: cur) simp_all

lemma splitAcc_at_match:
  "\<forall>c \<in> set s. \<not> p c \<Longrightarrow> p c \<Longrightarrow> splitAcc p cur (s @ c # t) = (cur @ s) # splitAcc p [] t"
  by (induction s arbitrary: cur) simp_all

lemma trimStart_id: "s = [] \<or> \<not> isWhiteSpace (hd s) \<Longrightarrow> trimStart s = s"
  by (cases s) (simp_all add: trimStart_def)

lemma trimEnd_id: "s = [] \<or> \<not> isWhiteSpace (last s) \<Longrightarrow> trimEnd s = s"
  by (cases s rule: rev_cases) (simp_all add: trimEnd_def)

lemma trim_id: "s = [] \<or> (\<not> isWhiteSpace (hd s) \<and> \<not> isWhiteSpace (last s)) \<Longrightarrow> trim s = s"
  by (auto simp: trim_def trimStart_id trimEnd_id)

lemma foldl_add_sum_list:
  "foldl (\<lambda>a c. a + f c) z xs = z + sum_list (map f xs)" for z :: rat
  by (induction xs arbitrary: z) (simp_all add: add.assoc)

lemma estimateTextWidth_sum:
  "estimateTextWidth cfg text fs = sum_list (map (charWidth cfg fs) text)"
  by (simp add: estimateTextWidth_def foldl_add_sum_list)

lemma estimateTextWidth_full_width:
  "\<forall>c \<in> set s. isFullWidthCharacter c \<Longrightarrow>
     estimateTextWidth cfg s fs = of_nat (length s) * (fs * baseMultiplier cfg)"
  by (induction s) (simp_all add: estimateTextWidth_sum charWidth_def algebra_simps)

lemma shouldBreakAfter_length [simp]:
  "length (shouldBreakAfter cfg W fs lines) = length lines"
  by (induction cfg W fs lines rule: shouldBreakAfter.induct) simp_all

lemma shouldBreakAfter_nth:
  "Suc i < length lines \<Longrightarrow>
     shouldBreakAfter cfg W fs lines ! i =
       (endsWithSentenceMark (trim (lines ! i)) \<or>
        jsLess (jsDiv (estimateTextWidth cfg (trim (lines ! i)) fs) W) (lineBreakThreshold cfg))"
proof (induction cfg W fs lines arbitrary: i rule: shouldBreakAfter.induct)
  case (3 cfg W fs currentLine nextLine rest)
  then show ?case by (cases i) simp_all
qed simp_all

lemma isHiragana_props:
  "isHiragana c \<Longrightarrow> isFullWidthCharacter c \<and> isJapanese c \<and> \<not> isWhiteSpace c \<and> c \<noteq> LF \<and> c \<noteq> 0x2028"
  by (auto simp: isHiragana_def isFullWidthCharacter_def isJapanese_def isWhiteSpace_def LF_def)

lemma breakPattern_DEFAULT: "breakPattern DEFAULT_CONFIG = Inr [(10, 10), (0x2028, 0x2028)]"
  by (simp add: breakPattern_def DEFAULT_CONFIG_def LF_def)


lemma classMatches_DEFAULT:
  "classMatches [(10, 10), (0x2028, 0x2028)] c \<longleftrightarrow> c = 10 \<or> c = 0x2028"
  by (auto simp: classMatches_def)

lemma hiragana_line:
  assumes "hs \<noteq> []" and "\<forall>c \<in> set hs. isHiragana c"
  shows "trim hs = hs" and "trimEnd hs = hs" and "\<not> endsWithSentenceMark hs"
    and "isJapanese (last hs)"
    and "estimateTextWidth DEFAULT_CONFIG hs 16 = of_nat (length hs) * 16"
proof -
  from assms have h: "isHiragana (hd hs)" and l: "isHiragana (last hs)" by simp_all
  show "trim hs = hs" using h l by (intro trim_id) (simp add: isHiragana_props)
  show "trimEnd hs = hs" using l by (intro trimEnd_id) (simp add: isHiragana_props)
  show "\<not> endsWithSentenceMark hs"
    using l by (auto simp: endsWithSentenceMark_def isHiragana_def)
  show "isJapanese (last hs)" using l by (simp add: isHiragana_props)
  have "\<forall>c \<in> set hs. isFullWidthCharacter c" using assms(2) by (simp add: isHiragana_props)
  then show "estimateTextWidth DEFAULT_CONFIG hs 16 = of_nat (length hs) * 16"
    by (simp add: estimateTextWidth_full_width baseMultiplier_def DEFAULT_CONFIG_def)
qed

lemma split_two_hiragana_lines:
  assumes "\<forall>c \<in> set hs. isHiragana c"
  shows "split (classMatches [(10, 10), (0x2028, 0x2028)]) (hs @ [10, 0x3044]) = [hs, [0x3044]]"
proof -
  have "\<forall>c \<in> set hs. \<not> classMatches [(10, 10), (0x2028, 0x2028)] c"
    using assms by (auto simp: classMatches_DEFAULT LF_def dest: isHiragana_props)
  then have "splitAcc (classMatches [(10, 10), (0x2028, 0x2028)]) [] (hs @ 10 # [0x3044])
      = ([] @ hs) # splitAcc (classMatches [(10, 10), (0x2028, 0x2028)]) [] [0x3044]"
    by (rule splitAcc_at_match) (simp add: classMatches_DEFAULT)
  then show ?thesis by (simp add: split_def classMatches_DEFAULT)
qed

lemma combine_hiragana: 
  assumes "hs \<noteq> []" and "\<forall>c \<in> set hs. isHiragana c"
  shows "combineLines hs [0x3044] = hs @ [0x3044]"
  using hiragana_line(2,4)[OF assms] assms(1)
  by (simp add: combineLines_def trimStart_def isWhiteSpace_def isJapanese_def Let_def)

lemma rejoin_hiragana_line_23:
  assumes "length hs = 23" and "\<forall>c \<in> set hs. isHiragana c"
  shows "estimateTextWidth DEFAULT_CONFIG hs 16 = 368"
    and "removeLineBreaksJapanesePriority DEFAULT_CONFIG (hs @ [LF, 0x3044]) 400 16 False
          = Inr (hs @ [0x3044])"
proof -
  from assms have ne: "hs \<noteq> []" by auto
  note L = hiragana_line[OF ne assms(2)]
  show "estimateTextWidth DEFAULT_CONFIG hs 16 = 368" using assms(1) by (simp add: L(5))
  have min: "minCharacters DEFAULT_CONFIG = 20" and thr: "lineBreakThreshold DEFAULT_CONFIG = 9 / 10"
    by (simp_all add: DEFAULT_CONFIG_def)
  have flags: "shouldBreakAfter DEFAULT_CONFIG 400 16 [hs, [0x3044]] = [False, True]"
    using assms(1) by (simp add: L jsDiv_def thr)
  show "removeLineBreaksJapanesePriority DEFAULT_CONFIG (hs @ [LF, 0x3044]) 400 16 False
          = Inr (hs @ [0x3044])"
    using assms(1) ne
    by (simp del: shouldBreakAfter.simps add: removeLineBreaksJapanesePriority_def min
        breakPattern_DEFAULT LF_def split_two_hiragana_lines[OF assms(2)] flags
        combine_hiragana[OF ne assms(2)])
qed





lemma joinLines_append_break:
  "length fs1 = length xs \<Longrightarrow>
   joinLines combine cur (zip (xs @ [l] @ ys) (fs1 @ [True] @ fs2)) =
     joinLines combine cur (zip (xs @ [l]) (fs1 @ [True])) @ joinLines combine [] (zip ys fs2)"
proof (induction xs arbitrary: cur fs1)
  case Nil
  then show ?case by simp
next
  case (Cons x xs)
  then obtain f fs' where f: "fs1 = f # fs'" "length fs' = length xs" by (cases fs1) auto
  show ?case using Cons.IH[OF f(2)] by (simp add: f(1) Let_def)
qed

lemma joinLines_last_break:
  "joinLines combine cur (xs @ [(l, True)]) \<noteq> []"
  by (induction xs arbitrary: cur) (auto simp: Let_def split: if_splits)

lemma shouldBreakAfter_Nil [simp]:
  "shouldBreakAfter cfg W fs lines = [] \<longleftrightarrow> lines = []"
  by (induction cfg W fs lines rule: shouldBreakAfter.induct) simp_all











lemma estimateTextWidth_part0_empty [simp]: "estimateTextWidth_part0 cfg [] fs = 0"
  by (simp add: estimateTextWidth_part0_def)

lemma shouldBreakAfter_part0_length [simp]:
  "length (shouldBreakAfter_part0 cfg W fs lines) = length lines"
  by (induction cfg W fs lines rule: shouldBreakAfter_part0.induct) simp_all

lemma shouldBreakAfter_part0_nth:
  "Suc i < length lines \<Longrightarrow>
     shouldBreakAfter_part0 cfg W fs lines ! i =
       (endsWithSentenceMark (trim (lines ! i)) \<or>
        \<not> jsGreaterEq (jsDiv (estimateTextWidth_part0 cfg (trim (lines ! i)) fs) W)
             (lineBreakThreshold cfg))"
proof (induction cfg W fs lines arbitrary: i rule: shouldBreakAfter_part0.induct)
  case (3 cfg W fs currentLine nextLine rest)
  then show ?case by (cases i) simp_all
qed simp_all





lemma trimEnd_decomp:
  "\<exists>u. a = trimEnd a @ u \<and> (\<forall>c \<in> set u. isWhiteSpace c) \<and>
       (trimEnd a = [] \<or> \<not> isWhiteSpace (last (trimEnd a)))"
proof -
  let ?r = "rev a"
  have 1: "?r = takeWhile isWhiteSpace ?r @ dropWhile isWhiteSpace ?r" by simp
  have "a = rev (dropWhile isWhiteSpace ?r) @ rev (takeWhile isWhiteSpace ?r)"
    by (metis 1 rev_append rev_rev_ident)
  moreover have "\<forall>c \<in> set (rev (takeWhile isWhiteSpace ?r)). isWhiteSpace c"
    by (auto dest: set_takeWhileD)
  moreover have "dropWhile isWhiteSpace ?r = [] \<or> \<not> isWhiteSpace (last (rev (dropWhile isWhiteSpace ?r)))"
    using hd_dropWhile [of isWhiteSpace ?r] by (auto simp: last_rev)
  ultimately show ?thesis unfolding trimEnd_def by (metis rev_is_Nil_conv)
qed

lemma trimStart_decomp:
  "\<exists>v. b = v @ trimStart b \<and> (\<forall>c \<in> set v. isWhiteSpace c) \<and>
       (trimStart b = [] \<or> \<not> isWhiteSpace (hd (trimStart b)))"
proof -
  have "b = takeWhile isWhiteSpace b @ dropWhile isWhiteSpace b" by simp
  moreover have "\<forall>c \<in> set (takeWhile isWhiteSpace b). isWhiteSpace c"
    by (auto dest: set_takeWhileD)
  moreover have "dropWhile isWhiteSpace b = [] \<or> \<not> isWhiteSpace (hd (dropWhile isWhiteSpace b))"
    using hd_dropWhile [of isWhiteSpace b] by blast
  ultimately show ?thesis unfolding trimStart_def by blast
qed

text \<open>
  Claim C3, as the code has it. A line that is not the last one and whose trimmed content
  ends in one of the four full-width marks U+3002, U+FF0E, U+FF01, U+FF1F keeps its break,
  whatever its width ratio.
\<close>

theorem sentence_mark_keeps_break:
  "Suc i < length lines \<and> endsWithSentenceMark (trim (lines ! i)) \<longrightarrow>
     shouldBreakAfter cfg W fs lines ! i = True"
  by (simp add: shouldBreakAfter_nth)

theorem sentence_mark_keeps_break_witness:
  "endsWithSentenceMark (trim [0x3042, 0x3002])
   \<and> \<not> jsLess (jsDiv (estimateTextWidth DEFAULT_CONFIG (trim [0x3042, 0x3002]) 16) 10)
          (lineBreakThreshold DEFAULT_CONFIG)
   \<and> shouldBreakAfter DEFAULT_CONFIG 10 16 [[0x3042, 0x3002], [0x3044]] ! 0 = True"
proof -
  have t: "trim [0x3042, 0x3002] = [0x3042, 0x3002]"
    by (rule trim_id) (simp add: isWhiteSpace_def)
  have e: "endsWithSentenceMark [0x3042, 0x3002]" by (simp add: endsWithSentenceMark_def)
  have w: "estimateTextWidth DEFAULT_CONFIG [0x3042, 0x3002] 16 = 32"
    by (simp add: estimateTextWidth_sum charWidth_def isFullWidthCharacter_def
        baseMultiplier_def DEFAULT_CONFIG_def)
  have thr: "lineBreakThreshold DEFAULT_CONFIG = 9 / 10" by (simp add: DEFAULT_CONFIG_def)
  show ?thesis
    using sentence_mark_keeps_break [of 0 "[[0x3042, 0x3002], [0x3044]]" DEFAULT_CONFIG 10 16]
    by (simp add: t e w thr jsDiv_def)
qed

text \<open>
  Claim C3 as stated also counts the ASCII marks. A line that ends in an ASCII full stop
  and is wider than the threshold loses its break: \<^verbatim>\<open>"a.\nb"\<close> in a container of
  width 10 becomes \<^verbatim>\<open>"a. b"\<close>.
\<close>

theorem ascii_full_stop_counterexample:
  "endsWithSpecSentenceMark (trim [0x61, 0x2E])
   \<and> shouldBreakAfter DEFAULT_CONFIG 10 16 [[0x61, 0x2E], [0x62]] ! 0 = False
   \<and> removeLineBreaksJapanesePriority DEFAULT_CONFIG [0x61, 0x2E, 0x0A, 0x62] 10 16 True
        = Inr [0x61, 0x2E, 0x20, 0x62]"
proof -
  have t: "trim [0x61, 0x2E] = [0x61, 0x2E]"
    by (rule trim_id) (simp add: isWhiteSpace_def)
  have w: "estimateTextWidth DEFAULT_CONFIG [0x61, 0x2E] 16 = 16"
    by (simp add: estimateTextWidth_sum charWidth_def isFullWidthCharacter_def
        isHalfWidthCharacter_def baseMultiplier_def DEFAULT_CONFIG_def)
  have thr: "lineBreakThreshold DEFAULT_CONFIG = 9 / 10" by (simp add: DEFAULT_CONFIG_def)
  have f: "shouldBreakAfter DEFAULT_CONFIG 10 16 [[0x61, 0x2E], [0x62]] = [False, True]"
    by (simp add: t w thr jsDiv_def endsWithSentenceMark_def)
  have s: "split (classMatches [(10, 10), (0x2028, 0x2028)]) [0x61, 0x2E, 0x0A, 0x62]
             = [[0x61, 0x2E], [0x62]]"
    by (simp add: split_def classMatches_DEFAULT)
  have c: "combineLines [0x61, 0x2E] [0x62] = [0x61, 0x2E, 0x20, 0x62]"
    by (simp add: combineLines_def trimEnd_def trimStart_def isWhiteSpace_def isJapanese_def SPACE_def)
  show ?thesis
    by (simp del: shouldBreakAfter.simps
        add: t f s c endsWithSpecSentenceMark_def removeLineBreaksJapanesePriority_def
             breakPattern_DEFAULT LF_def)
qed

text \<open>
  Claim C4, as the code has it. \<^verbatim>\<open>combineLines\<close> removes the white space at the end of
  the first line and at the start of the second; if either part is then empty it
  concatenates them; if the last unit of the first and the first unit of the second are both
  Japanese in the sense of \<^verbatim>\<open>isJapanese\<close> (Hiragana, Katakana, CJK Unified, CJK
  Extension A) it concatenates them with no separator; otherwise it puts exactly one space
  between them.
\<close>

theorem combineLines_cases:
  "\<exists>u v. line1 = trimEnd line1 @ u \<and> (\<forall>c \<in> set u. isWhiteSpace c) \<and>
          (trimEnd line1 = [] \<or> \<not> isWhiteSpace (last (trimEnd line1))) \<and>
          line2 = v @ trimStart line2 \<and> (\<forall>c \<in> set v. isWhiteSpace c) \<and>
          (trimStart line2 = [] \<or> \<not> isWhiteSpace (hd (trimStart line2))) \<and>
          combineLines line1 line2 =
            (if trimEnd line1 = [] \<or> trimStart line2 = [] then trimEnd line1 @ trimStart line2
             else if isJapanese (last (trimEnd line1)) \<and> isJapanese (hd (trimStart line2))
               then trimEnd line1 @ trimStart line2
             else trimEnd line1 @ [SPACE] @ trimStart line2)"
proof -
  obtain u where u: "line1 = trimEnd line1 @ u" "\<forall>c \<in> set u. isWhiteSpace c"
      "trimEnd line1 = [] \<or> \<not> isWhiteSpace (last (trimEnd line1))"
    using trimEnd_decomp by blast
  obtain v where v: "line2 = v @ trimStart line2" "\<forall>c \<in> set v. isWhiteSpace c"
      "trimStart line2 = [] \<or> \<not> isWhiteSpace (hd (trimStart line2))"
    using trimStart_decomp by blast
  have "combineLines line1 line2 =
            (if trimEnd line1 = [] \<or> trimStart line2 = [] then trimEnd line1 @ trimStart line2
             else if isJapanese (last (trimEnd line1)) \<and> isJapanese (hd (trimStart line2))
               then trimEnd line1 @ trimStart line2
             else trimEnd line1 @ [SPACE] @ trimStart line2)"
    by (simp add: combineLines_def Let_def)
  with u v show ?thesis by blast
qed

theorem combineLines_cases_witness:
  "combineLines [0x3042, 0x20] [0x20, 0x3044] = [0x3042, 0x3044]
   \<and> combineLines [0x61, 0x20] [0x20, 0x3044] = [0x61, 0x20, 0x3044]
   \<and> combineLines [0x20] [0x20, 0x3044] = [0x3044]"
proof -
  have e: "trimEnd [0x3042, 0x20] = [0x3042]" "trimEnd [0x61, 0x20] = [0x61]" "trimEnd [0x20] = []"
    by (simp_all add: trimEnd_def isWhiteSpace_def)
  have s: "trimStart [0x20, 0x3044] = [0x3044]"
    by (simp add: trimStart_def isWhiteSpace_def)
  show ?thesis
    using combineLines_cases [of "[0x3042, 0x20]" "[0x20, 0x3044]"]
          combineLines_cases [of "[0x61, 0x20]" "[0x20, 0x3044]"]
          combineLines_cases [of "[0x20]" "[0x20, 0x3044]"]
    by (simp add: e s isJapanese_def SPACE_def)
qed

text \<open>
  Claim C4 as stated takes the six full-width ranges of the width estimator as the test.
  The ideographic full stop U+3002 is full-width but not Japanese for \<^verbatim>\<open>isJapanese\<close>,
  so a space is put after it.
\<close>

theorem combineLines_full_width_counterexample:
  "isFullWidthCharacter (last (trimEnd [0x3042, 0x3002]))
   \<and> isFullWidthCharacter (hd (trimStart [0x3044]))
   \<and> combineLines [0x3042, 0x3002] [0x3044] = [0x3042, 0x3002, 0x20, 0x3044]
   \<and> combineLines [0x3042, 0x3002] [0x3044] \<noteq> trimEnd [0x3042, 0x3002] @ trimStart [0x3044]"
  by (simp add: combineLines_def trimEnd_def trimStart_def isWhiteSpace_def isJapanese_def
      isFullWidthCharacter_def SPACE_def)

lemma splitAcc_cong:
  "\<forall>c \<in> set s. p c = q c \<Longrightarrow> splitAcc p cur s = splitAcc q cur s"
  by (induction s arbitrary: cur) simp_all

lemma splitAcc_nonempty [simp]: "splitAcc p cur s \<noteq> []"
  by (induction s arbitrary: cur) simp_all

lemma join_Cons: "xs \<noteq> [] \<Longrightarrow> join sep (x # xs) = x @ sep @ join sep xs"
  by (cases xs) simp_all

lemma join_splitAcc: "join [LF] (splitAcc isLF cur s) = cur @ s"
  by (induction s arbitrary: cur) (simp_all add: join_Cons isLF_def)

lemma join_hardBreakLines: "join [LF] (hardBreakLines s) = s"
  by (simp add: hardBreakLines_def split_def join_splitAcc)

lemma classRanges_first:
  "classRanges (a # rest) = Inr rs \<Longrightarrow> classMatches rs a"
  by (cases "(a # rest)" rule: classRanges.cases)
     (auto simp: classMatches_def split: if_splits sum.splits)

lemma breakPattern_LF: "breakPattern cfg = Inr cls \<Longrightarrow> classMatches cls LF"
  by (simp add: breakPattern_def classRanges_first)

lemma shouldBreakAfter_all_marks:
  "\<forall>l \<in> set lines. endsWithSentenceMark (trim l) \<Longrightarrow>
     shouldBreakAfter cfg W fs lines = replicate (length lines) True"
  by (induction cfg W fs lines rule: shouldBreakAfter.induct) simp_all

lemma joinLines_all_true:
  "joinLines combine [] (zip lines (replicate (length lines) True)) = lines"
  by (induction lines) simp_all

lemma blank_ratio_not_above:
  "0 < t \<Longrightarrow> \<not> jsGreaterEq (jsDiv 0 W) t"
  by (simp add: jsDiv_def)

lemma shouldBreakAfter_part0_Nil [simp]:
  "shouldBreakAfter_part0 cfg W fs lines = [] \<longleftrightarrow> lines = []"
  by (induction cfg W fs lines rule: shouldBreakAfter_part0.induct) simp_all

lemma shouldBreakAfter_part0_append:
  "rest \<noteq> [] \<Longrightarrow>
     shouldBreakAfter_part0 cfg W fs (front @ [l] @ rest) =
       butlast (shouldBreakAfter_part0 cfg W fs (front @ [l]))
       @ [endsWithSentenceMark (trim l) \<or>
          \<not> jsGreaterEq (jsDiv (estimateTextWidth_part0 cfg (trim l) fs) W) (lineBreakThreshold cfg)]
       @ shouldBreakAfter_part0 cfg W fs rest"
proof (induction front)
  case Nil
  then show ?case by (cases rest) simp_all
next
  case (Cons a front)
  then show ?case by (cases front) simp_all
qed

lemma shouldBreakAfter_part0_last:
  "lines \<noteq> [] \<Longrightarrow> last (shouldBreakAfter_part0 cfg W fs lines) = True"
  by (induction cfg W fs lines rule: shouldBreakAfter_part0.induct) simp_all

lemma rejoinLines_part0_blank_split:
  assumes "trim blank = []" and "0 < lineBreakThreshold cfg" and "rest \<noteq> []"
  shows "rejoinLines_part0 cfg W fs (front @ [blank] @ rest) =
         rejoinLines_part0 cfg W fs (front @ [blank]) @ rejoinLines_part0 cfg W fs rest"
proof -
  let ?F = "shouldBreakAfter_part0 cfg W fs (front @ [blank])"
  have ne: "?F \<noteq> []" by simp
  have last: "last ?F = True" by (rule shouldBreakAfter_part0_last) simp
  have F: "?F = butlast ?F @ [True]" using ne last by (metis append_butlast_last_id)
  have len: "length (butlast ?F) = length front" by simp
  have full: "shouldBreakAfter_part0 cfg W fs (front @ [blank] @ rest) =
      butlast ?F @ [True] @ shouldBreakAfter_part0 cfg W fs rest"
    using assms(1,2) shouldBreakAfter_part0_append[OF assms(3), of cfg W fs front blank]
    by (simp add: blank_ratio_not_above)
  have "rejoinLines_part0 cfg W fs (front @ [blank] @ rest) =
      joinLines combineLines_part0 [] (zip (front @ [blank]) (butlast ?F @ [True]))
      @ joinLines combineLines_part0 [] (zip rest (shouldBreakAfter_part0 cfg W fs rest))"
    unfolding rejoinLines_part0_def full by (rule joinLines_append_break[OF len])
  then show ?thesis unfolding rejoinLines_part0_def using F by simp
qed

lemma splitAcc_isLF_append:
  "splitAcc isLF cur (s @ LF # t) = splitAcc isLF cur s @ splitAcc isLF [] t"
proof (induction s arbitrary: cur)
  case Nil
  show ?case by (simp add: isLF_def)
next
  case (Cons c s)
  then show ?case by simp
qed

lemma hardBreakLines_append:
  "hardBreakLines (t1 @ LF # t2) = hardBreakLines t1 @ hardBreakLines t2"
  using splitAcc_isLF_append[of "[]" t1 t2] by (simp add: hardBreakLines_def split_def)

lemma hardBreakLines_nonempty [simp]: "hardBreakLines t \<noteq> []"
  by (simp add: hardBreakLines_def split_def)

lemma join_append:
  "xs \<noteq> [] \<Longrightarrow> ys \<noteq> [] \<Longrightarrow> join sep (xs @ ys) = join sep xs @ sep @ join sep ys"
proof (induction xs)
  case Nil
  then show ?case by simp
next
  case (Cons x xs)
  show ?case
  proof (cases "xs = []")
    case True
    with Cons.prems show ?thesis by (simp add: join_Cons)
  next
    case False
    with Cons show ?thesis by (simp add: join_Cons)
  qed
qed

lemma rejoinLines_part0_nonempty:
  assumes "lines \<noteq> []"
  shows "rejoinLines_part0 cfg W fs lines \<noteq> []"
proof -
  let ?F = "shouldBreakAfter_part0 cfg W fs lines"
  have F: "?F = butlast ?F @ [True]"
    using assms shouldBreakAfter_part0_last[OF assms, of cfg W fs]
    by (metis append_butlast_last_id shouldBreakAfter_part0_Nil)
  have L: "lines = butlast lines @ [last lines]" using assms by simp
  have "zip lines ?F = zip (butlast lines) (butlast ?F) @ [(last lines, True)]"
    by (subst L, subst F) (simp del: append_butlast_last_id)
  then show ?thesis by (simp add: rejoinLines_part0_def joinLines_last_break)
qed

text \<open>
  Claim C10. In \<^verbatim>\<open>removeLineBreaksJapanesePriority\<close> of \<^verbatim>\<open>part_000\<close>, with a
  positive threshold every line that is not the last one and whose trimmed content is empty
  gets the flag \<open>True\<close>: its estimated width is 0, and the test
  \<^verbatim>\<open>widthRatio >= lineBreakThreshold\<close> fails for the ratio 0 and for NaN alike. So the
  break after a blank line is kept: the lines after a blank line are rejoined on their own,
  as the lines up to it are, and the two results are separated by a hard break. The witness
  shows a blank line absorbed into the wide line before it.
\<close>

theorem blank_line_keeps_break_part0:
  "0 < lineBreakThreshold cfg \<longrightarrow>
     (Suc i < length lines \<and> trim (lines ! i) = [] \<longrightarrow>
        shouldBreakAfter_part0 cfg W fs lines ! i = True)
     \<and> (trim blank = [] \<and> following \<noteq> [] \<longrightarrow>
          rejoinLines_part0 cfg W fs (front @ [blank] @ following) =
            rejoinLines_part0 cfg W fs (front @ [blank]) @ rejoinLines_part0 cfg W fs following)
     \<and> (trim (last (hardBreakLines t1)) = [] \<longrightarrow>
          removeLineBreaksJapanesePriority_part0 cfg (t1 @ [LF] @ t2) W fs True =
            removeLineBreaksJapanesePriority_part0 cfg t1 W fs True @ [LF]
            @ removeLineBreaksJapanesePriority_part0 cfg t2 W fs True)"
proof (intro impI conjI)
  assume thr: "0 < lineBreakThreshold cfg"
  {
    assume "Suc i < length lines \<and> trim (lines ! i) = []"
    then show "shouldBreakAfter_part0 cfg W fs lines ! i = True"
      using thr by (simp add: shouldBreakAfter_part0_nth blank_ratio_not_above)
  }
  {
    assume "trim blank = [] \<and> following \<noteq> []"
    then show "rejoinLines_part0 cfg W fs (front @ [blank] @ following) =
            rejoinLines_part0 cfg W fs (front @ [blank]) @ rejoinLines_part0 cfg W fs following"
      using thr rejoinLines_part0_blank_split[of blank cfg following W fs front] by simp
  }
  {
    assume b: "trim (last (hardBreakLines t1)) = []"
    let ?A = "hardBreakLines t1" and ?B = "hardBreakLines t2"
    have eq1: "butlast ?A @ [last ?A] @ ?B = ?A @ ?B" by simp
    have eq2: "butlast ?A @ [last ?A] = ?A" by simp
    have "rejoinLines_part0 cfg W fs (butlast ?A @ [last ?A] @ ?B) =
          rejoinLines_part0 cfg W fs (butlast ?A @ [last ?A]) @ rejoinLines_part0 cfg W fs ?B"
      using b thr by (intro rejoinLines_part0_blank_split) simp_all
    then have "rejoinLines_part0 cfg W fs (?A @ ?B) =
          rejoinLines_part0 cfg W fs ?A @ rejoinLines_part0 cfg W fs ?B"
      unfolding eq1 eq2 .
    then show "removeLineBreaksJapanesePriority_part0 cfg (t1 @ [LF] @ t2) W fs True =
            removeLineBreaksJapanesePriority_part0 cfg t1 W fs True @ [LF]
            @ removeLineBreaksJapanesePriority_part0 cfg t2 W fs True"
      by (simp add: removeLineBreaksJapanesePriority_part0_def hardBreakLines_append
          join_append rejoinLines_part0_nonempty del: append_butlast_last_id)
  }
qed

theorem blank_line_keeps_break_part0_witness:
  "0 < lineBreakThreshold DEFAULT_CONFIG
   \<and> shouldBreakAfter_part0 DEFAULT_CONFIG 0 16 [[0x3042, 0x3042], [0x20], [0x3044]] ! 1 = True
   \<and> rejoinLines_part0 DEFAULT_CONFIG 10 16 ([[0x3042, 0x3042]] @ [[0x20]] @ [[0x3044]]) =
       rejoinLines_part0 DEFAULT_CONFIG 10 16 ([[0x3042, 0x3042]] @ [[0x20]])
       @ rejoinLines_part0 DEFAULT_CONFIG 10 16 [[0x3044]]
   \<and> removeLineBreaksJapanesePriority_part0 DEFAULT_CONFIG
        ([0x3042, 0x3042, 0x0A, 0x20] @ [LF] @ [0x3044]) 10 16 True =
       removeLineBreaksJapanesePriority_part0 DEFAULT_CONFIG [0x3042, 0x3042, 0x0A, 0x20] 10 16 True
       @ [LF] @ removeLineBreaksJapanesePriority_part0 DEFAULT_CONFIG [0x3044] 10 16 True
   \<and> removeLineBreaksJapanesePriority_part0 DEFAULT_CONFIG [0x3042, 0x3042, 0x0A, 0x20] 10 16 True
       = [0x3042, 0x3042]"
proof -
  have thr: "lineBreakThreshold DEFAULT_CONFIG = 9 / 10" by (simp add: DEFAULT_CONFIG_def)
  have pos: "0 < lineBreakThreshold DEFAULT_CONFIG" by (simp add: thr)
  have t: "trim [0x20] = []" "trim [0x3042, 0x3042] = [0x3042, 0x3042]"
    by (simp_all add: trim_def trimStart_def trimEnd_def isWhiteSpace_def)
  have h: "hardBreakLines [0x3042, 0x3042, 0x0A, 0x20] = [[0x3042, 0x3042], [0x20]]"
    by (simp add: hardBreakLines_def split_def isLF_def LF_def)
  have h1: "Suc 1 < length [[0x3042, 0x3042], [0x20], [0x3044 :: nat]]
            \<and> trim ([[0x3042, 0x3042], [0x20], [0x3044]] ! 1) = []"
    by (simp add: t)
  have h2: "trim [0x20] = [] \<and> [[0x3044 :: nat]] \<noteq> []" by (simp add: t)
  have h3: "trim (last (hardBreakLines [0x3042, 0x3042, 0x0A, 0x20])) = []" by (simp add: h t)
  note T0 = blank_line_keeps_break_part0
            [of DEFAULT_CONFIG 1 "[[0x3042, 0x3042], [0x20], [0x3044]]" 0 16 "[0x20]" "[[0x3044]]"
                "[[0x3042, 0x3042]]" "[0x3042, 0x3042, 0x0A, 0x20]" "[0x3044]"]
  note T10 = blank_line_keeps_break_part0
            [of DEFAULT_CONFIG 1 "[[0x3042, 0x3042], [0x20], [0x3044]]" 10 16 "[0x20]" "[[0x3044]]"
                "[[0x3042, 0x3042]]" "[0x3042, 0x3042, 0x0A, 0x20]" "[0x3044]"]
  have w: "estimateTextWidth_part0 DEFAULT_CONFIG [0x3042, 0x3042] 16 = 32"
    by (simp add: estimateTextWidth_part0_def getFallbackCharacterWidth_def
        isFullWidthCharacter_def isPunctuation_def baseMultiplier_def DEFAULT_CONFIG_def)
  have f: "shouldBreakAfter_part0 DEFAULT_CONFIG 10 16 [[0x3042, 0x3042], [0x20]] = [False, True]"
    by (simp add: t w thr jsDiv_def endsWithSentenceMark_def)
  have c: "combineLines_part0 [0x3042, 0x3042] [0x20] = [0x3042, 0x3042]"
    by (simp add: combineLines_part0_def trimEnd_def trimStart_def isWhiteSpace_def)
  have r1: "removeLineBreaksJapanesePriority_part0 DEFAULT_CONFIG [0x3042, 0x3042, 0x0A, 0x20] 10 16 True
             = [0x3042, 0x3042]"
    by (simp del: shouldBreakAfter_part0.simps
        add: removeLineBreaksJapanesePriority_part0_def rejoinLines_part0_def h f c)
  from pos h1 T0 have a: "shouldBreakAfter_part0 DEFAULT_CONFIG 0 16 [[0x3042, 0x3042], [0x20], [0x3044]] ! 1 = True"
    by blast
  from pos h2 T10 have b: "rejoinLines_part0 DEFAULT_CONFIG 10 16 ([[0x3042, 0x3042]] @ [[0x20]] @ [[0x3044]]) =
       rejoinLines_part0 DEFAULT_CONFIG 10 16 ([[0x3042, 0x3042]] @ [[0x20]])
       @ rejoinLines_part0 DEFAULT_CONFIG 10 16 [[0x3044]]"
    by blast
  from pos h3 T10 have d: "removeLineBreaksJapanesePriority_part0 DEFAULT_CONFIG
        ([0x3042, 0x3042, 0x0A, 0x20] @ [LF] @ [0x3044]) 10 16 True =
       removeLineBreaksJapanesePriority_part0 DEFAULT_CONFIG [0x3042, 0x3042, 0x0A, 0x20] 10 16 True
       @ [LF] @ removeLineBreaksJapanesePriority_part0 DEFAULT_CONFIG [0x3044] 10 16 True"
    by blast
  from pos a b d r1 show ?thesis by blast
qed

lemma shouldBreakAfter_part0_all_marks:
  "\<forall>l \<in> set lines. endsWithSentenceMark (trim l) \<Longrightarrow>
     shouldBreakAfter_part0 cfg W fs lines = replicate (length lines) True"
  by (induction cfg W fs lines rule: shouldBreakAfter_part0.induct) simp_all

text \<open>
  Claim C2, as the code has it. \<^verbatim>\<open>code.ts\<close> splits the text at every unit of the
  break pattern, the configured soft breaks included, and joins the result with hard
  breaks. If the pattern compiles, no unit of the text other than the hard break matches
  it, and the trimmed content of every line between hard breaks ends in a sentence-final
  mark (U+3002, U+FF01, U+FF1F of the claim, or U+FF0E), the text is returned unchanged,
  whether or not the minimum length applies. The later revision \<^verbatim>\<open>part_000\<close> splits
  at hard breaks only and returns such a text unchanged whatever soft breaks it contains.
\<close>

theorem rejoin_keeps_text_of_finished_sentences:
  "(breakPattern cfg = Inr cls \<and>
    (\<forall>c \<in> set s. classMatches cls c \<longrightarrow> c = LF) \<and>
    (\<forall>l \<in> set (hardBreakLines s). endsWithSentenceMark (trim l)) \<longrightarrow>
      removeLineBreaksJapanesePriority cfg s W fs ignoreMinCharacters = Inr s)
   \<and> ((\<forall>l \<in> set (hardBreakLines s). endsWithSentenceMark (trim l)) \<longrightarrow>
      removeLineBreaksJapanesePriority_part0 cfg s W fs ignoreMinCharacters = s)"
proof (intro conjI impI, elim conjE)
  assume bp: "breakPattern cfg = Inr cls"
    and soft: "\<forall>c \<in> set s. classMatches cls c \<longrightarrow> c = LF"
    and marks: "\<forall>l \<in> set (hardBreakLines s). endsWithSentenceMark (trim l)"
  have "\<forall>c \<in> set s. classMatches cls c = isLF c"
    using soft breakPattern_LF[OF bp] by (auto simp: isLF_def)
  then have sp: "split (classMatches cls) s = hardBreakLines s"
    by (simp add: split_def hardBreakLines_def splitAcc_cong)
  have fl: "shouldBreakAfter cfg W fs (hardBreakLines s) = replicate (length (hardBreakLines s)) True"
    using marks by (rule shouldBreakAfter_all_marks)
  show "removeLineBreaksJapanesePriority cfg s W fs ignoreMinCharacters = Inr s"
    by (simp add: removeLineBreaksJapanesePriority_def bp sp fl joinLines_all_true
        join_hardBreakLines)
next
  assume marks: "\<forall>l \<in> set (hardBreakLines s). endsWithSentenceMark (trim l)"
  have "shouldBreakAfter_part0 cfg W fs (hardBreakLines s)
          = replicate (length (hardBreakLines s)) True"
    using marks by (rule shouldBreakAfter_part0_all_marks)
  then show "removeLineBreaksJapanesePriority_part0 cfg s W fs ignoreMinCharacters = s"
    by (simp add: removeLineBreaksJapanesePriority_part0_def rejoinLines_part0_def
        joinLines_all_true join_hardBreakLines)
qed

theorem rejoin_keeps_text_of_finished_sentences_witness:
  "breakPattern DEFAULT_CONFIG = Inr [(10, 10), (0x2028, 0x2028)]
   \<and> hardBreakLines [0x3042, 0x3002, 0x0A, 0x3044, 0xFF01] = [[0x3042, 0x3002], [0x3044, 0xFF01]]
   \<and> removeLineBreaksJapanesePriority DEFAULT_CONFIG [0x3042, 0x3002, 0x0A, 0x3044, 0xFF01] 400 16 True
       = Inr [0x3042, 0x3002, 0x0A, 0x3044, 0xFF01]
   \<and> removeLineBreaksJapanesePriority_part0 DEFAULT_CONFIG [0x3042, 0x3002, 0x0A, 0x3044, 0xFF01]
        400 16 True
       = [0x3042, 0x3002, 0x0A, 0x3044, 0xFF01]"
proof -
  have h: "hardBreakLines [0x3042, 0x3002, 0x0A, 0x3044, 0xFF01] = [[0x3042, 0x3002], [0x3044, 0xFF01]]"
    by (simp add: hardBreakLines_def split_def isLF_def LF_def)
  have t: "trim [0x3042, 0x3002] = [0x3042, 0x3002]" "trim [0x3044, 0xFF01] = [0x3044, 0xFF01]"
    by (rule trim_id, simp add: isWhiteSpace_def)+
  show ?thesis
    using rejoin_keeps_text_of_finished_sentences
      [of DEFAULT_CONFIG "[(10, 10), (0x2028, 0x2028)]" "[0x3042, 0x3002, 0x0A, 0x3044, 0xFF01]" 400 16 True]
    by (simp add: h t breakPattern_DEFAULT classMatches_DEFAULT endsWithSentenceMark_def LF_def)
qed

text \<open>
  Claim C2 as stated speaks of the lines between hard breaks only. With the default soft
  break U+2028 inside its single line, a text that ends in U+3002 is split at the soft
  break; at a container width of 400 both pieces are narrow, and the text comes back with
  a hard break in the place of the soft break.
\<close>

theorem rejoin_soft_break_counterexample:
  "hardBreakLines [0x3042, 0x2028, 0x3044, 0x3002] = [[0x3042, 0x2028, 0x3044, 0x3002]]
   \<and> trim [0x3042, 0x2028, 0x3044, 0x3002] = [0x3042, 0x2028, 0x3044, 0x3002]
   \<and> last [0x3042, 0x2028, 0x3044, 0x3002] = (0x3002 :: nat)
   \<and> removeLineBreaksJapanesePriority DEFAULT_CONFIG [0x3042, 0x2028, 0x3044, 0x3002] 400 16 True
        = Inr [0x3042, 0x0A, 0x3044, 0x3002]
   \<and> removeLineBreaksJapanesePriority DEFAULT_CONFIG [0x3042, 0x2028, 0x3044, 0x3002] 400 16 True
        \<noteq> Inr [0x3042, 0x2028, 0x3044, 0x3002]"
proof -
  have h: "hardBreakLines [0x3042, 0x2028, 0x3044, 0x3002] = [[0x3042, 0x2028, 0x3044, 0x3002]]"
    by (simp add: hardBreakLines_def split_def isLF_def LF_def)
  have t: "trim [0x3042, 0x2028, 0x3044, 0x3002] = [0x3042, 0x2028, 0x3044, 0x3002]"
      "trim [0x3042] = [0x3042]"
    by (rule trim_id, simp add: isWhiteSpace_def)+
  have s: "split (classMatches [(10, 10), (0x2028, 0x2028)]) [0x3042, 0x2028, 0x3044, 0x3002]
             = [[0x3042], [0x3044, 0x3002]]"
    by (simp add: split_def classMatches_DEFAULT)
  have w: "estimateTextWidth DEFAULT_CONFIG [0x3042] 16 = 16"
    by (simp add: estimateTextWidth_sum charWidth_def isFullWidthCharacter_def
        baseMultiplier_def DEFAULT_CONFIG_def)
  have thr: "lineBreakThreshold DEFAULT_CONFIG = 9 / 10" by (simp add: DEFAULT_CONFIG_def)
  have f: "shouldBreakAfter DEFAULT_CONFIG 400 16 [[0x3042], [0x3044, 0x3002]] = [True, True]"
    by (simp add: t w thr jsDiv_def endsWithSentenceMark_def)
  show ?thesis
    by (simp del: shouldBreakAfter.simps
        add: h t s f removeLineBreaksJapanesePriority_def breakPattern_DEFAULT LF_def)
qed

text \<open>
  Claim C6, as the code has it. \<^verbatim>\<open>detectAutoWidthIssues\<close> of \<^verbatim>\<open>code.ts\<close> emits
  one auto-width issue with confidence 0.9 exactly when the resize mode is \<^verbatim>\<open>NONE\<close>,
  \<^verbatim>\<open>HEIGHT\<close> or \<^verbatim>\<open>WIDTH_AND_HEIGHT\<close>, the text contains a hard break and the
  break pattern compiles; otherwise it emits nothing. The detector of the modular revision
  \<^verbatim>\<open>src/textAnalyzer.ts\<close> emits the issue exactly when the mode is
  \<^verbatim>\<open>WIDTH_AND_HEIGHT\<close> and the text contains a hard break.
\<close>

theorem detectAutoWidthIssues_emits_iff:
  "((\<exists>issue. detectAutoWidthIssues cfg nd = [issue] \<and> type issue = AutoWidth
              \<and> confidence issue = 9 / 10)
      \<longleftrightarrow> textAutoResize nd \<noteq> TRUNCATE \<and> LF \<in> set (characters nd)
          \<and> (\<exists>cls. breakPattern cfg = Inr cls))
   \<and> (detectAutoWidthIssues cfg nd = []
      \<longleftrightarrow> textAutoResize nd = TRUNCATE \<or> LF \<notin> set (characters nd)
          \<or> (\<exists>e. breakPattern cfg = Inl e))
   \<and> ((\<exists>issue. detectAutoWidthIssues_modular nd = [issue] \<and> type issue = AutoWidth
              \<and> confidence issue = 9 / 10)
      \<longleftrightarrow> textAutoResize nd = WIDTH_AND_HEIGHT \<and> LF \<in> set (characters nd))
   \<and> (detectAutoWidthIssues_modular nd = []
      \<longleftrightarrow> textAutoResize nd \<noteq> WIDTH_AND_HEIGHT \<or> LF \<notin> set (characters nd))"
  by (cases "textAutoResize nd"; cases "breakPattern cfg")
     (auto simp: detectAutoWidthIssues_def getLineNumbers_def detectAutoWidthIssues_modular_def
        Let_def)

theorem detectAutoWidthIssues_emits_iff_witness:
  "detectAutoWidthIssues DEFAULT_CONFIG (fixedNode\<lparr>textAutoResize := TRUNCATE\<rparr>) = []
   \<and> detectAutoWidthIssues DEFAULT_CONFIG (fixedNode\<lparr>textAutoResize := WIDTH_AND_HEIGHT\<rparr>) \<noteq> []
   \<and> detectAutoWidthIssues DEFAULT_CONFIG (fixedNode\<lparr>textAutoResize := HEIGHT\<rparr>) \<noteq> []
   \<and> detectAutoWidthIssues_modular (fixedNode\<lparr>textAutoResize := HEIGHT\<rparr>) = []
   \<and> detectAutoWidthIssues_modular (fixedNode\<lparr>textAutoResize := WIDTH_AND_HEIGHT\<rparr>) \<noteq> []"
  using detectAutoWidthIssues_emits_iff [of DEFAULT_CONFIG "fixedNode\<lparr>textAutoResize := TRUNCATE\<rparr>"]
        detectAutoWidthIssues_emits_iff [of DEFAULT_CONFIG "fixedNode\<lparr>textAutoResize := WIDTH_AND_HEIGHT\<rparr>"]
        detectAutoWidthIssues_emits_iff [of DEFAULT_CONFIG "fixedNode\<lparr>textAutoResize := HEIGHT\<rparr>"]
  by (simp add: fixedNode_def breakPattern_DEFAULT LF_def)

text \<open>
  Claim C6 as stated emits nothing for a fixed-size block. The fixed-size node with the
  text \<^verbatim>\<open>"a\nb"\<close> gets the issue.
\<close>

theorem detectAutoWidthIssues_fixed_counterexample:
  "textAutoResize fixedNode = NONE
   \<and> detectAutoWidthIssues DEFAULT_CONFIG fixedNode =
       [\<lparr> type = AutoWidth, confidence = 9 / 10,
          description = ''Text with line breaks can be processed'', lineNumbers = [1] \<rparr>]"
  by (simp add: detectAutoWidthIssues_def getLineNumbers_def fixedNode_def breakPattern_DEFAULT
      split_def classMatches_DEFAULT LF_def Let_def)

lemma splitWhitespaceAcc_word:
  "\<forall>c \<in> set s. \<not> isWhiteSpace c \<Longrightarrow> splitWhitespaceAcc False cur s = [cur @ s]"
  by (induction s arbitrary: cur) simp_all

lemma concat_splitWhitespaceAcc: "concat (splitWhitespaceAcc b cur s) = cur @ s"
  by (induction s arbitrary: b cur) simp_all

lemma concat_wrapWords: "concat (wrapWords cfg W fs cur ws) = cur @ concat ws"
  by (induction ws arbitrary: cur) (simp_all add: Let_def)

lemma trim_all_whitespace:
  assumes "\<forall>c \<in> set s. isWhiteSpace c"
  shows "trim s = []"
proof -
  have "trimStart s = []" using assms by (simp add: trimStart_def)
  then show ?thesis by (simp add: trim_def trimEnd_def)
qed

lemma trim_word:
  assumes "s \<noteq> []" and "\<forall>c \<in> set s. \<not> isWhiteSpace c"
  shows "trim s = s"
  using assms by (intro trim_id) simp

text \<open>
  Claim C7. \<^verbatim>\<open>simulateWordWrap\<close> wraps each paragraph on its own and concatenates the
  lines. A paragraph of white space only gives exactly one empty line. In any other
  paragraph the tokens are taken in order: a token is appended to the current line exactly
  when the estimated width of line and token together is at most the container width or the
  line is still empty, and otherwise the line is flushed and the token starts the next one;
  at the end a non-empty line is flushed. No token is dropped: the lines of a paragraph
  concatenate to the paragraph. So a paragraph that is a single word wider than the
  container gives exactly one line, the word.
\<close>

theorem simulateWordWrap_paragraphs:
  "(breakPattern cfg = Inr cls \<longrightarrow>
      simulateWordWrap cfg s W fs =
        Inr (concat (map (wrapParagraph cfg W fs) (split (classMatches cls) s))))
   \<and> ((\<forall>c \<in> set blank. isWhiteSpace c) \<longrightarrow> wrapParagraph cfg W fs blank = [[]])
   \<and> (trim p \<noteq> [] \<longrightarrow> wrapParagraph cfg W fs p = wrapWords cfg W fs [] (splitWhitespace p)
                         \<and> concat (splitWhitespace p) = p
                         \<and> concat (wrapParagraph cfg W fs p) = p)
   \<and> wrapWords cfg W fs currentLine (token # tokens) =
       (if estimateTextWidth cfg (currentLine @ token) fs \<le> W \<or> currentLine = []
        then wrapWords cfg W fs (currentLine @ token) tokens
        else currentLine # wrapWords cfg W fs token tokens)
   \<and> wrapWords cfg W fs currentLine [] = (if currentLine = [] then [] else [currentLine])
   \<and> (word \<noteq> [] \<and> (\<forall>c \<in> set word. \<not> isWhiteSpace c) \<and> W < estimateTextWidth cfg word fs
        \<longrightarrow> wrapParagraph cfg W fs word = [word])"
proof (intro conjI impI)
  assume "breakPattern cfg = Inr cls"
  then show "simulateWordWrap cfg s W fs =
        Inr (concat (map (wrapParagraph cfg W fs) (split (classMatches cls) s)))"
    by (simp add: simulateWordWrap_def)
next
  assume "\<forall>c \<in> set blank. isWhiteSpace c"
  then show "wrapParagraph cfg W fs blank = [[]]"
    by (simp add: wrapParagraph_def trim_all_whitespace)
next
  assume "trim p \<noteq> []"
  then show "wrapParagraph cfg W fs p = wrapWords cfg W fs [] (splitWhitespace p)"
    by (simp add: wrapParagraph_def)
next
  show "concat (splitWhitespace p) = p"
    by (simp add: splitWhitespace_def concat_splitWhitespaceAcc)
next
  assume "trim p \<noteq> []"
  then show "concat (wrapParagraph cfg W fs p) = p"
    by (simp add: wrapParagraph_def concat_wrapWords splitWhitespace_def concat_splitWhitespaceAcc)
next
  show "wrapWords cfg W fs currentLine (token # tokens) =
       (if estimateTextWidth cfg (currentLine @ token) fs \<le> W \<or> currentLine = []
        then wrapWords cfg W fs (currentLine @ token) tokens
        else currentLine # wrapWords cfg W fs token tokens)"
    by (simp add: Let_def)
next
  show "wrapWords cfg W fs currentLine [] = (if currentLine = [] then [] else [currentLine])"
    by simp
next
  assume a: "word \<noteq> [] \<and> (\<forall>c \<in> set word. \<not> isWhiteSpace c) \<and> W < estimateTextWidth cfg word fs"
  then have "trim word = word" by (simp add: trim_word)
  moreover have "splitWhitespace word = [word]"
    using a by (simp add: splitWhitespace_def splitWhitespaceAcc_word)
  ultimately show "wrapParagraph cfg W fs word = [word]"
    using a by (simp add: wrapParagraph_def)
qed

theorem simulateWordWrap_paragraphs_witness:
  "(10 :: rat) < estimateTextWidth DEFAULT_CONFIG [0x61, 0x62, 0x63] 16
   \<and> wrapParagraph DEFAULT_CONFIG 10 16 [0x61, 0x62, 0x63] = [[0x61, 0x62, 0x63]]
   \<and> wrapParagraph DEFAULT_CONFIG 10 16 [0x20, 0x20] = [[]]
   \<and> simulateWordWrap DEFAULT_CONFIG [0x61, 0x62, 0x63, 0x0A, 0x20, 0x20] 10 16
       = Inr [[0x61, 0x62, 0x63], []]
   \<and> simulateWordWrap DEFAULT_CONFIG [0x61, 0x20, 0x62, 0x20, 0x63] 24 16
       = Inr [[0x61, 0x20, 0x62], [0x20, 0x63]]"
proof -
  have w: "estimateTextWidth DEFAULT_CONFIG [0x61, 0x62, 0x63] 16 = 24"
    by (simp add: estimateTextWidth_sum charWidth_def isFullWidthCharacter_def
        isHalfWidthCharacter_def baseMultiplier_def DEFAULT_CONFIG_def)
  have nw: "[0x61, 0x62, 0x63 :: nat] \<noteq> [] \<and> (\<forall>c \<in> set [0x61, 0x62, 0x63 :: nat]. \<not> isWhiteSpace c)
            \<and> (10 :: rat) < estimateTextWidth DEFAULT_CONFIG [0x61, 0x62, 0x63] 16"
    by (simp add: w isWhiteSpace_def)
  have bl: "\<forall>c \<in> set [0x20, 0x20 :: nat]. isWhiteSpace c" by (simp add: isWhiteSpace_def)
  note T = simulateWordWrap_paragraphs
     [of DEFAULT_CONFIG "[(10, 10), (0x2028, 0x2028)]" _ 10 16 "[0x20, 0x20]" _ _ _ _ "[0x61, 0x62, 0x63]"]
  have p1: "wrapParagraph DEFAULT_CONFIG 10 16 [0x61, 0x62, 0x63] = [[0x61, 0x62, 0x63]]"
    using T nw by blast
  have p2: "wrapParagraph DEFAULT_CONFIG 10 16 [0x20, 0x20] = [[]]"
    using T bl by blast
  have s1: "split (classMatches [(10, 10), (0x2028, 0x2028)]) [0x61, 0x62, 0x63, 0x0A, 0x20, 0x20]
              = [[0x61, 0x62, 0x63], [0x20, 0x20]]"
    by (simp add: split_def classMatches_DEFAULT)
  have a: "simulateWordWrap DEFAULT_CONFIG [0x61, 0x62, 0x63, 0x0A, 0x20, 0x20] 10 16
       = Inr [[0x61, 0x62, 0x63], []]"
    by (simp add: simulateWordWrap_def breakPattern_DEFAULT s1 p1 p2)
  have s2: "split (classMatches [(10, 10), (0x2028, 0x2028)]) [0x61, 0x20, 0x62, 0x20, 0x63]
              = [[0x61, 0x20, 0x62, 0x20, 0x63]]"
    by (simp add: split_def classMatches_DEFAULT)
  have t2: "trim [0x61, 0x20, 0x62, 0x20, 0x63] = [0x61, 0x20, 0x62, 0x20, 0x63]"
    by (rule trim_id) (simp add: isWhiteSpace_def)
  have sw: "splitWhitespace [0x61, 0x20, 0x62, 0x20, 0x63] = [[0x61], [0x20], [0x62], [0x20], [0x63]]"
    by (simp add: splitWhitespace_def isWhiteSpace_def)
  have cw: "charWidth DEFAULT_CONFIG 16 0x61 = 8" "charWidth DEFAULT_CONFIG 16 0x62 = 8"
      "charWidth DEFAULT_CONFIG 16 0x63 = 8" "charWidth DEFAULT_CONFIG 16 0x20 = 8"
    by (simp_all add: charWidth_def isFullWidthCharacter_def isHalfWidthCharacter_def
        baseMultiplier_def DEFAULT_CONFIG_def)
  have b: "simulateWordWrap DEFAULT_CONFIG [0x61, 0x20, 0x62, 0x20, 0x63] 24 16
       = Inr [[0x61, 0x20, 0x62], [0x20, 0x63]]"
    by (simp add: simulateWordWrap_def breakPattern_DEFAULT s2 wrapParagraph_def t2 sw
        estimateTextWidth_sum cw Let_def)
  from nw p1 p2 a b show ?thesis by blast
qed

lemma replaceLiteral_single:
  "replaceLiteral [k] s = map (\<lambda>c. if c = k then LF else c) s"
  by (induction s) auto

lemma convertLoop_units:
  "list_all (\<lambda>k. \<not> regexSyntaxCharacter k) ks \<Longrightarrow>
     convertLoop (map (\<lambda>k. [k]) ks) s = Inr (map (softBreakSubst ks) s)"
proof (induction ks arbitrary: s)
  case Nil
  show ?case by (simp add: map_idI)
next
  case (Cons k ks)
  then show ?case
    by (simp add: replaceAllMatches_def replaceLiteral_single comp_def)
qed

lemma softBreakSubst_LF: "softBreakSubst ks LF = LF"
  by (induction ks) simp_all

lemma softBreakSubst_cases: "softBreakSubst ks c = LF \<or> (softBreakSubst ks c = c \<and> c \<notin> set ks)"
  by (induction ks arbitrary: c) (auto simp: softBreakSubst_LF)

lemma softBreakSubst_idem: "softBreakSubst ks (softBreakSubst ks c) = softBreakSubst ks c"
  using softBreakSubst_cases[of ks c] by (auto simp: softBreakSubst_LF)

lemma softBreakSubst_eq: "softBreakSubst ks c = (if c \<in> set ks then LF else c)"
proof (induction ks arbitrary: c)
  case (Cons k ks)
  then show ?case by (auto simp: softBreakSubst_LF)
qed simp

lemma convert_units_idempotent:
  assumes "softBreakChars cfg = map (\<lambda>k. [k]) ks" and "list_all (\<lambda>k. \<not> regexSyntaxCharacter k) ks"
  shows "convertSoftBreaksToHard cfg s = Inr (map (\<lambda>c. if c \<in> set ks then LF else c) s)"
    and "convertSoftBreaksToHard cfg (map (\<lambda>c. if c \<in> set ks then LF else c) s)
           = Inr (map (\<lambda>c. if c \<in> set ks then LF else c) s)"
  using assms by (simp_all add: convertSoftBreaksToHard_def convertLoop_units softBreakSubst_eq comp_def)

text \<open>
  Claim C5. Conversion is idempotent when every configured soft break is a single
  character that is not a syntax character of regular expressions
  (\<open>convert_units_idempotent\<close>). The source does not escape the configured strings, so
  with the soft break \<^verbatim>\<open>^\<close> every conversion puts one more hard break at the start of
  the text: \<^verbatim>\<open>"a"\<close> becomes \<^verbatim>\<open>"\na"\<close>, and that becomes \<^verbatim>\<open>"\n\na"\<close>.
\<close>

theorem convert_caret_not_idempotent:
  "convertSoftBreaksToHard caretConfig [0x61] = Inr [0x0A, 0x61]
   \<and> convertSoftBreaksToHard caretConfig [0x0A, 0x61] = Inr [0x0A, 0x0A, 0x61]"
  by (simp add: convertSoftBreaksToHard_def caretConfig_def DEFAULT_CONFIG_def
      replaceAllMatches_def regexSyntaxCharacter_def LF_def)

lemma applyIssues_fields:
  "applyIssues cfg nd found (changes, t) = Inr (changes', t') \<Longrightarrow>
     newText changes' = newText changes \<and>
     newAutoResize changes' =
       (if list_ex (\<lambda>issue. type issue = AutoWidth) found then Some HEIGHT
        else newAutoResize changes)"
proof (induction found arbitrary: changes t)
  case Nil
  then show ?case by simp
next
  case (Cons issue rest)
  show ?case
  proof (cases "type issue")
    case AutoWidth
    with Cons.prems obtain r where
      "applyIssues cfg nd rest (changes\<lparr>newAutoResize := Some HEIGHT\<rparr>, r) = Inr (changes', t')"
      by (auto split: sum.splits)
    from Cons.IH[OF this] AutoWidth show ?thesis by simp
  next
    case EdgeBreaking
    with Cons.prems obtain r where
      "applyIssues cfg nd rest (changes, r) = Inr (changes', t')"
      by (auto split: sum.splits)
    from Cons.IH[OF this] EdgeBreaking show ?thesis by simp
  next
    case SoftBreak
    with Cons.prems obtain r where
      "applyIssues cfg nd rest (changes, r) = Inr (changes', t')"
      by (auto split: sum.splits)
    from Cons.IH[OF this] SoftBreak show ?thesis by simp
  qed
qed

lemma list_ex_sort_key: "list_ex P (sort_key f xs) = list_ex P xs"
  by (simp add: list_ex_iff)

text \<open>
  Claim C8, as the code has it. When \<^verbatim>\<open>generateChanges\<close> returns, \<open>newText\<close> is
  set only to a processed text that differs from the original text. \<open>newAutoResize\<close> is
  set, to \<^verbatim>\<open>HEIGHT\<close>, exactly when the node's mode is \<^verbatim>\<open>WIDTH_AND_HEIGHT\<close> or an
  auto-width issue is among the issues; the node's current mode is not compared with it.
\<close>

theorem generateChanges_fields:
  "generateChanges cfg original found nd = Inr changes \<longrightarrow>
     (newText changes = None \<or>
      (\<exists>processed. newText changes = Some processed \<and> processed \<noteq> original))
     \<and> (newAutoResize changes =
          (if textAutoResize nd = WIDTH_AND_HEIGHT \<or>
              list_ex (\<lambda>issue. type issue = AutoWidth) found
           then Some HEIGHT else None))"
proof
  assume g: "generateChanges cfg original found nd = Inr changes"
  let ?cond = "textAutoResize nd = WIDTH_AND_HEIGHT \<or>
              list_ex (\<lambda>issue. type issue = AutoWidth) found"
  obtain ch t where
    run: "(if textAutoResize nd = WIDTH_AND_HEIGHT then
              (case removeLineBreaksJapanesePriority cfg original (width nd)
                      (getFontSize nd) False of
                 Inl e \<Rightarrow> Inl e
               | Inr rejoined \<Rightarrow>
                   Inr (\<lparr>newText = None, newAutoResize = Some HEIGHT\<rparr>, rejoined))
            else applyIssues cfg nd (sort_key (\<lambda>issue. - confidence issue) found)
                   (\<lparr>newText = None, newAutoResize = None\<rparr>, original)) = Inr (ch, t)"
    and res: "changes = (if t \<noteq> original then ch\<lparr>newText := Some t\<rparr> else ch)"
    using g unfolding generateChanges_def by (auto split: sum.splits prod.splits)
  have ch: "newText ch = None \<and> newAutoResize ch = (if ?cond then Some HEIGHT else None)"
  proof (cases "textAutoResize nd = WIDTH_AND_HEIGHT")
    case True
    with run show ?thesis by (auto split: sum.splits)
  next
    case False
    with run have "applyIssues cfg nd (sort_key (\<lambda>issue. - confidence issue) found)
                   (\<lparr>newText = None, newAutoResize = None\<rparr>, original) = Inr (ch, t)"
      by simp
    from applyIssues_fields[OF this] False show ?thesis
      by (simp add: list_ex_sort_key)
  qed
  show "(newText changes = None \<or>
      (\<exists>processed. newText changes = Some processed \<and> processed \<noteq> original))
     \<and> (newAutoResize changes = (if ?cond then Some HEIGHT else None))"
    using ch res by auto
qed

theorem generateChanges_fields_witness:
  "generateChanges DEFAULT_CONFIG (characters autoWidthNode) [] autoWidthNode
      = Inr \<lparr>newText = Some (replicate 23 0x3042 @ [0x3044]), newAutoResize = Some HEIGHT\<rparr>
   \<and> replicate 23 0x3042 @ [0x3044] \<noteq> characters autoWidthNode
   \<and> generateChanges DEFAULT_CONFIG (characters autoHeightNode) [] autoHeightNode
      = Inr \<lparr>newText = None, newAutoResize = None\<rparr>"
proof -
  have h: "\<forall>c \<in> set (replicate 23 (0x3042 :: nat)). isHiragana c" by (simp add: isHiragana_def)
  have r: "removeLineBreaksJapanesePriority DEFAULT_CONFIG (replicate 23 0x3042 @ [0x0A, 0x3044]) 400 16 False
            = Inr (replicate 23 0x3042 @ [0x3044])"
    using rejoin_hiragana_line_23(2)[OF _ h] by (simp add: LF_def)
  have n: "characters autoWidthNode = replicate 23 0x3042 @ [0x0A, 0x3044]" "width autoWidthNode = 400"
      "getFontSize autoWidthNode = 16" "textAutoResize autoWidthNode = WIDTH_AND_HEIGHT"
    by (simp_all add: autoWidthNode_def getFontSize_def)
  have ne: "replicate 23 (0x3042 :: nat) @ [0x3044] \<noteq> replicate 23 0x3042 @ [0x0A, 0x3044]"
    by simp
  have g1: "generateChanges DEFAULT_CONFIG (characters autoWidthNode) [] autoWidthNode
      = Inr \<lparr>newText = Some (replicate 23 0x3042 @ [0x3044]), newAutoResize = Some HEIGHT\<rparr>"
    unfolding generateChanges_def n r using ne by simp
  have g2: "generateChanges DEFAULT_CONFIG (characters autoHeightNode) [] autoHeightNode
      = Inr \<lparr>newText = None, newAutoResize = None\<rparr>"
    by (simp add: generateChanges_def autoHeightNode_def)
  from generateChanges_fields[of DEFAULT_CONFIG "characters autoWidthNode" "[]" autoWidthNode
        "\<lparr>newText = Some (replicate 23 0x3042 @ [0x3044]), newAutoResize = Some HEIGHT\<rparr>"] g1
  have "replicate 23 0x3042 @ [0x3044] \<noteq> characters autoWidthNode" by simp
  with g1 g2 show ?thesis by blast
qed

lemma rejoin_short_text:
  "int (length s) < minCharacters cfg \<Longrightarrow>
     removeLineBreaksJapanesePriority cfg s W fs False = Inr s"
  by (simp add: removeLineBreaksJapanesePriority_def)

text \<open>
  Claim C8 as stated sets the resize mode only when it differs from the node's. For the
  auto-height node with the text \<^verbatim>\<open>"a\nb"\<close> and the issue the detector emits for it,
  \<open>newAutoResize\<close> is \<^verbatim>\<open>HEIGHT\<close>, the mode the node already has.
\<close>

theorem generateChanges_same_mode_counterexample:
  "textAutoResize autoHeightNode = HEIGHT
   \<and> generateChanges DEFAULT_CONFIG (characters autoHeightNode)
        (detectAutoWidthIssues DEFAULT_CONFIG autoHeightNode) autoHeightNode
      = Inr \<lparr>newText = None, newAutoResize = Some HEIGHT\<rparr>"
proof -
  have d: "detectAutoWidthIssues DEFAULT_CONFIG autoHeightNode =
       [\<lparr> type = AutoWidth, confidence = 9 / 10,
          description = ''Text with line breaks can be processed'', lineNumbers = [1] \<rparr>]"
    by (simp add: detectAutoWidthIssues_def getLineNumbers_def autoHeightNode_def
        breakPattern_DEFAULT split_def classMatches_DEFAULT LF_def Let_def)
  have r: "removeLineBreaksJapanesePriority DEFAULT_CONFIG [0x61, 0x0A, 0x62] 100 16 False
            = Inr [0x61, 0x0A, 0x62]"
    by (rule rejoin_short_text) (simp add: DEFAULT_CONFIG_def)
  have n: "characters autoHeightNode = [0x61, 0x0A, 0x62]" "width autoHeightNode = 100"
      "getFontSize autoHeightNode = 16" "textAutoResize autoHeightNode = HEIGHT"
    by (simp_all add: autoHeightNode_def getFontSize_def)
  show ?thesis by (simp add: generateChanges_def d n r)
qed















end
